theory Spec2Isabelle
  imports Main "HOL-Library.Sublist"
begin

section \<open>Constants of tasks/conan.py\<close>

definition DL_ARTIFACTORY :: string where
  "DL_ARTIFACTORY = ''http://artifactory.dlogics.com:8081/artifactory''"

definition UPLOAD_REMOTE :: string where
  "UPLOAD_REMOTE = ''conan-local''"

definition UPLOAD_DEPENDENCIES_REMOTE :: string where
  "UPLOAD_DEPENDENCIES_REMOTE = ''conan-ext''"

definition REDIRECT_REMOTE :: string where
  "REDIRECT_REMOTE = ''conan-redirect''"

definition STABLE_BRANCH_PATTERN :: string where
  "STABLE_BRANCH_PATTERN = ''dl/stable/.*''"

definition STABLE_USERNAME :: string where
  "STABLE_USERNAME = ''datalogics''"

text \<open>
  A remote of the package manager is a name with a URL. The table \<open>remotes\<close> is the
  \<^verbatim>\<open>OrderedDict\<close> of the source: an association list in insertion order.
\<close>

type_synonym remote = "string \<times> string"

definition remotes :: "remote list" where
  "remotes =
    [(''conan-redirect'', DL_ARTIFACTORY @ ''/api/conan/conan-redirect''),
     (''conan-ext'', DL_ARTIFACTORY @ ''/api/conan/conan-ext''),
     (''conan-local'', DL_ARTIFACTORY @ ''/api/conan/conan-local''),
     (''conan-center'', ''https://conan.bintray.com''),
     (''bincrafters'', ''https://api.bintray.com/conan/bincrafters/public-conan'')]"

section \<open>Exceptions\<close>

datatype exn =
    ConanException
  | HTTPError
  | FileNotFoundError
  | JSONDecodeError
  | TypeError
  | KeyError
  | IndexError
  | UnexpectedExit

section \<open>Regular expressions, as far as the branch pattern needs them\<close>

text \<open>
  \<^verbatim>\<open>re.compile\<close> on a pattern made of ordinary characters, the dot and the postfix
  star; \<^verbatim>\<open>prog.match\<close> succeeds when the pattern matches a prefix of the subject
  (it is anchored at the start only). Without the DOTALL flag the dot matches every
  character but the newline.
\<close>

datatype re_atom = Lit char | Dot

datatype re_item = One re_atom | Star re_atom

definition atom_of :: "char \<Rightarrow> re_atom" where
  "atom_of c = (if c = CHR ''.'' then Dot else Lit c)"

fun re_compile :: "string \<Rightarrow> re_item list" where
  "re_compile [] = []"
| "re_compile [c] = [One (atom_of c)]"
| "re_compile (c # d # cs) =
     (if d = CHR ''*'' then Star (atom_of c) # re_compile cs
      else One (atom_of c) # re_compile (d # cs))"

fun atom_matches :: "re_atom \<Rightarrow> char \<Rightarrow> bool" where
  "atom_matches (Lit a) c = (a = c)"
| "atom_matches Dot c = (c \<noteq> CHR 0x0A)"

fun re_match :: "re_item list \<Rightarrow> string \<Rightarrow> bool" where
  "re_match [] s = True"
| "re_match (One a # r) [] = False"
| "re_match (One a # r) (c # t) = (atom_matches a c \<and> re_match r t)"
| "re_match (Star a # r) [] = re_match r []"
| "re_match (Star a # r) (c # t) =
     ((atom_matches a c \<and> re_match (Star a # r) t) \<or> re_match r (c # t))"

section \<open>What the tasks do to the outside, and what they read from it\<close>

text \<open>
  Every call the tasks make into the package manager, the operating system, the console
  or the network is an event; the events of a run, in order, are its log.
\<close>

datatype out_level = Info | Warn | Highlight

text \<open>The keyword arguments shared by the two install calls of the API.\<close>

record install_args =
  arg_settings :: "string list"
  arg_options :: "string list"
  arg_env :: "(string \<times> string) list"
  arg_build :: "string list"
  arg_profile_name :: "string option"
  arg_install_folder :: string

text \<open>
  Calls into the package manager, with the arguments the source passes:
  \<open>Copy ref user_channel force packages\<close>,
  \<open>Upload pattern remote confirm force all_packages\<close>, \<open>Remove pattern force\<close>,
  \<open>Install path args generators\<close>, \<open>Install_reference reference args\<close>,
  \<open>Graph_info path profile_name build\<close> (the API's \<^verbatim>\<open>info\<close>), \<open>Authenticate name password remote\<close>,
  \<open>Remote_add name url insert force\<close>. The last three are calls into the packaging
  matrix builder: \<open>Multi_packager username upload_only_when_stable upload\<close> makes it
  (the other arguments of the constructor are constants of the source),
  \<open>Add_common_builds\<close> fills its matrix, \<open>Builder_run\<close> is its \<^verbatim>\<open>run\<close>.
\<close>

datatype api_call =
    Factory
  | Remote_rename string string
  | Remote_add string string "nat option" bool
  | Remote_remove string
  | Remote_remove_ref string
  | Remote_update_ref string string
  | Authenticate "string option" "string option" string
  | Graph_info string string "string list"
  | Install_path string string
  | Install string install_args bool
  | Install_reference string install_args
  | Copy string string bool bool
  | Upload string string bool bool bool
  | Remove string bool
  | Export_alias string string
  | Multi_packager string bool "string \<times> bool \<times> string"
  | Add_common_builds
  | Builder_run "string option"

text \<open>
  Calls into the operating system, the console and the network. \<open>Run prefixes cwds
  command env\<close> is \<^verbatim>\<open>ctx.run(command, env=env)\<close> under the prefixes and directories
  entered with \<^verbatim>\<open>ctx.prefix\<close> and \<^verbatim>\<open>ctx.cd\<close>.
\<close>

datatype os_call =
    Input_line string
  | Getpass string
  | Http_get string string string
  | Mkdtemp nat
  | Rmtree_tmp nat
  | Copytree string string "string list"
  | Chmod string nat
  | Environ_set string string
  | Environ_append "(string \<times> string) list"
  | Environ_restore
  | Run "string list" "string list" string "(string \<times> string) list"

datatype event = Out out_level string | Api api_call | Os os_call

text \<open>A recipe object of a dependency; \<open>cf_alias\<close> is its \<^verbatim>\<open>alias\<close> attribute, if it has one.\<close>

record conanfile =
  cf_name :: string
  cf_version :: string
  cf_user :: string
  cf_channel :: string
  cf_alias :: "string option"

text \<open>A node of the dependency graph is an object: \<open>node_id\<close> is its identity.\<close>

record node =
  node_id :: nat
  node_conanfile :: conanfile

record deps_graph =
  graph_root :: node
  graph_nodes :: "node list"

text \<open>An item of the packaging matrix.\<close>

record build_item =
  item_settings :: "(string \<times> string) list"
  item_options :: "(string \<times> string) list"
  item_env_vars :: "(string \<times> string) list"
  item_build_requires :: "(string \<times> string list) list"
  item_reference :: string

text \<open>What reading \<^verbatim>\<open>build_tools/build/conanbuildinfo.json\<close> finds.\<close>

datatype json_file =
    Json_missing
  | Json_malformed
  | Json_object "(string \<times> (string \<times> string) list) list"

text \<open>
  What the outside answers is a parameter of the model:
  \<^item> \<open>os_user\<close> is \<^verbatim>\<open>getpass.getuser()\<close>, \<open>ci_branch\<close> is
    \<^verbatim>\<open>CIManager(Printer()).get_branch()\<close> (\<open>None\<close> when no branch is known),
    \<open>sys_platform\<close> is \<^verbatim>\<open>sys.platform\<close>, \<open>cpu_count\<close> is \<^verbatim>\<open>tools.cpu_count()\<close>;
  \<^item> \<open>call_raises\<close> says, from the log so far, whether a call into the package manager,
    the network, the file system or a shell command raises, and what;
  \<^item> \<open>login_db\<close> is \<^verbatim>\<open>LocalDB.get_login(url)\<close>: the stored user name and token;
  \<^item> \<open>stdin_line\<close> and \<open>stdin_password\<close> are what the user types at \<^verbatim>\<open>input\<close> and
    \<^verbatim>\<open>getpass.getpass\<close>; \<open>http_response\<close> is the status code and text of the
    response to \<^verbatim>\<open>requests.get(url, auth=(username, password))\<close>;
  \<^item> \<open>winreg_open\<close> is the registry key at a path, \<open>None\<close> when there is no such key,
    and otherwise what \<^verbatim>\<open>QueryValueEx\<close> gives for a value name;
  \<^item> \<open>user_home\<close> is the absolute path of the package manager's home;
  \<^item> \<open>ref_table\<close> is \<^verbatim>\<open>conan_api.remote_list_ref()\<close> after the log so far: the
    references with the remote each one came from;
  \<^item> \<open>info_graph\<close> is the dependency graph \<^verbatim>\<open>conan_api.info\<close> resolves,
    \<open>builder_items\<close> the items of the packaging matrix after
    \<^verbatim>\<open>add_common_builds\<close>;
  \<^item> \<open>file_lines\<close> is the lines of a text file, \<open>None\<close> when it does not exist,
    \<open>path_exists\<close> is \<^verbatim>\<open>os.path.exists\<close>, \<open>abspath\<close> is \<^verbatim>\<open>os.path.abspath\<close>,
    \<open>buildinfo_json\<close> is what \<^verbatim>\<open>build_tools/build/conanbuildinfo.json\<close> holds.
\<close>

record outside =
  os_user :: string
  ci_branch :: "string option"
  sys_platform :: string
  cpu_count :: nat
  call_raises :: "event list \<Rightarrow> event \<Rightarrow> exn option"
  login_db :: "string \<Rightarrow> string option \<times> string option"
  stdin_line :: string
  stdin_password :: string
  http_response :: "string \<Rightarrow> string \<Rightarrow> string \<Rightarrow> nat \<times> string"
  winreg_open :: "string \<Rightarrow> (string \<Rightarrow> exn + int) option"
  user_home :: string
  ref_table :: "event list \<Rightarrow> (string \<times> string) list"
  info_graph :: deps_graph
  builder_items :: "build_item list"
  file_lines :: "string \<Rightarrow> string list option"
  path_exists :: "string \<Rightarrow> bool"
  abspath :: "string \<Rightarrow> string"
  buildinfo_json :: json_file

text \<open>
  The state the tasks act on: the package manager's list of remotes in priority order,
  the temporary directories that exist, and the log.
\<close>

record world =
  registry :: "remote list"
  tmp_live :: "nat list"
  log :: "event list"

section \<open>Statements with effects and exceptions\<close>

text \<open>
  A statement takes the world and gives the world after it together with either the
  exception it raised (\<open>Inl\<close>) or its value (\<open>Inr\<close>). An exception keeps the world
  reached when it was raised: clean-up code that runs during unwinding acts on it.
\<close>

type_synonym 'a m = "world \<Rightarrow> (exn + 'a) \<times> world"

definition succeed :: "'a \<Rightarrow> 'a m" where
  "succeed a w = (Inr a, w)"

definition raise :: "exn \<Rightarrow> 'a m" where
  "raise e w = (Inl e, w)"

definition and_then :: "'a m \<Rightarrow> ('a \<Rightarrow> 'b m) \<Rightarrow> 'b m" where
  "and_then p f w = (case p w of (Inl e, w') \<Rightarrow> (Inl e, w') | (Inr a, w') \<Rightarrow> f a w')"

definition then_do :: "unit m \<Rightarrow> 'b m \<Rightarrow> 'b m" where
  "then_do p q = and_then p (\<lambda>_. q)"

definition lift :: "exn + 'a \<Rightarrow> 'a m" where
  "lift r w = (r, w)"

definition emit :: "event \<Rightarrow> unit m" where
  "emit e w = (Inr (), w\<lparr>log := log w @ [e]\<rparr>)"

definition call :: "'x outside_scheme \<Rightarrow> event \<Rightarrow> unit m" where
  "call x e w =
     (case call_raises x (log w) e of
        None \<Rightarrow> (Inr (), w\<lparr>log := log w @ [e]\<rparr>)
      | Some ex \<Rightarrow> (Inl ex, w\<lparr>log := log w @ [e]\<rparr>))"

text \<open>A \<^verbatim>\<open>for\<close> loop; \<open>for_loop\<close> carries the local variables the body updates.\<close>

fun for_each :: "'a list \<Rightarrow> ('a \<Rightarrow> unit m) \<Rightarrow> unit m" where
  "for_each [] body = succeed ()"
| "for_each (a # as) body = then_do (body a) (for_each as body)"

fun for_loop :: "'a list \<Rightarrow> 's \<Rightarrow> ('s \<Rightarrow> 'a \<Rightarrow> 's m) \<Rightarrow> 's m" where
  "for_loop [] s body = succeed s"
| "for_loop (a # as) s body = and_then (body s a) (\<lambda>s'. for_loop as s' body)"

text \<open>\<^verbatim>\<open>d[k]\<close> on a dictionary.\<close>

definition dict_get :: "('k \<times> 'v) list \<Rightarrow> 'k \<Rightarrow> 'v m" where
  "dict_get d k = (case map_of d k of None \<Rightarrow> raise KeyError | Some v \<Rightarrow> succeed v)"

section \<open>The package manager's list of remotes\<close>

text \<open>
  The remote calls of the package manager's API are not part of this repository. They
  are modelled on the list of remotes as the package manager documents them:
  \<^item> names are unique; \<^verbatim>\<open>remote_rename(old, new)\<close> fails when \<open>old\<close> is unknown;
    otherwise the remote \<open>old\<close> takes the name \<open>new\<close>, in place of the remote that
    had that name, if there was one (the release the tasks were written for does not
    refuse a name that is taken);
  \<^item> \<^verbatim>\<open>remote_add(name, url, insert=i, force=True)\<close> drops the remote of that name
    and every remote of that URL, then puts the pair at index \<open>i\<close> (\<^verbatim>\<open>list.insert\<close>:
    at the end when the list is shorter), or at the end without \<open>insert\<close>;
  \<^item> \<^verbatim>\<open>remote_add\<close> without \<open>force\<close> fails when the name is taken or another remote
    has the URL;
  \<^item> \<^verbatim>\<open>remote_remove(name)\<close> fails when the name is unknown.
\<close>

definition list_insert :: "nat \<Rightarrow> 'a \<Rightarrow> 'a list \<Rightarrow> 'a list" where
  "list_insert i a xs = take i xs @ a # drop i xs"

definition registry_rename :: "string \<Rightarrow> string \<Rightarrow> remote list \<Rightarrow> exn + remote list" where
  "registry_rename old new rs =
     (if old \<notin> set (map fst rs) then Inl ConanException
      else Inr (map (\<lambda>(n, u). if n = old then (new, u) else (n, u))
                  (filter (\<lambda>(n, u). n \<noteq> new \<or> n = old) rs)))"

definition registry_add ::
  "string \<Rightarrow> string \<Rightarrow> nat option \<Rightarrow> bool \<Rightarrow> remote list \<Rightarrow> exn + remote list" where
  "registry_add name url insert_at force rs =
     (if force then
        (let kept = filter (\<lambda>(n, u). n \<noteq> name \<and> u \<noteq> url) rs
         in case insert_at of
              None \<Rightarrow> Inr (kept @ [(name, url)])
            | Some i \<Rightarrow> Inr (list_insert i (name, url) kept))
      else if name \<in> set (map fst rs) then Inl ConanException
      else if url \<in> set (map snd rs) then Inl ConanException
      else case insert_at of
              None \<Rightarrow> Inr (rs @ [(name, url)])
            | Some i \<Rightarrow> Inr (list_insert i (name, url) rs))"

definition registry_remove :: "string \<Rightarrow> remote list \<Rightarrow> exn + remote list" where
  "registry_remove name rs =
     (if name \<notin> set (map fst rs) then Inl ConanException
      else Inr (filter (\<lambda>(n, u). n \<noteq> name) rs))"

definition registry_call :: "event \<Rightarrow> (remote list \<Rightarrow> exn + remote list) \<Rightarrow> unit m" where
  "registry_call e f w =
     (case f (registry w) of
        Inl ex \<Rightarrow> (Inl ex, w\<lparr>log := log w @ [e]\<rparr>)
      | Inr rs \<Rightarrow> (Inr (), w\<lparr>registry := rs, log := log w @ [e]\<rparr>))"

definition remote_list :: "remote list m" where
  "remote_list w = (Inr (registry w), w)"

definition remote_rename :: "string \<Rightarrow> string \<Rightarrow> unit m" where
  "remote_rename old new = registry_call (Api (Remote_rename old new)) (registry_rename old new)"

definition remote_add :: "string \<Rightarrow> string \<Rightarrow> nat option \<Rightarrow> bool \<Rightarrow> unit m" where
  "remote_add name url insert_at force =
     registry_call (Api (Remote_add name url insert_at force))
       (registry_add name url insert_at force)"

definition remote_remove :: "string \<Rightarrow> unit m" where
  "remote_remove name = registry_call (Api (Remote_remove name)) (registry_remove name)"

section \<open>Remote reconciliation\<close>

text \<open>
  \<^verbatim>\<open>Conan.factory\<close> makes the API object; it is a call like the others. Where the
  source takes the API object as an optional argument, the model takes \<open>conan_api\<close>,
  \<open>None\<close> when the caller passes none.
\<close>

definition get_remotes :: "(string \<rightharpoonup> string) m" where
  "get_remotes =
     and_then remote_list (\<lambda>rl.
       succeed (fold (\<lambda>(name, url) urls. urls(url \<mapsto> name)) rl Map.empty))"

definition setup_remotes :: "'x outside_scheme \<Rightarrow> unit m" where
  "setup_remotes x =
     then_do (call x (Api Factory))
    (and_then get_remotes (\<lambda>urls.
     and_then
       (for_loop remotes (0::nat) (\<lambda>insert_loc (remote, url).
          then_do
            (case urls url of
               None \<Rightarrow> succeed ()
             | Some old_remote \<Rightarrow>
                 if old_remote \<noteq> remote
                 then then_do
                        (emit (Out Info (''renaming '' @ old_remote @ '' to '' @ remote)))
                        (remote_rename old_remote remote)
                 else succeed ())
         (then_do (emit (Out Info (''adding remote '' @ remote @ '' as '' @ url)))
         (then_do (remote_add remote url (Some insert_loc) True)
                  (succeed (insert_loc + 1))))))
       (\<lambda>_. succeed ())))"

section \<open>Strings and paths\<close>

text \<open>Decimal digits of a number, as an f-string renders an integer.\<close>

fun str_nat :: "nat \<Rightarrow> string" where
  "str_nat n =
     (if n < 10 then [char_of (48 + n)]
      else str_nat (n div 10) @ [char_of (48 + n mod 10)])"

declare str_nat.simps [simp del]

text \<open>
  \<^verbatim>\<open>str.strip()\<close> removes white space at both ends; characters are code points below
  256, of which these are white space for Python.
\<close>

definition is_space :: "char \<Rightarrow> bool" where
  "is_space c =
     (of_char c \<in> {9, 10, 11, 12, 13, 28, 29, 30, 31, 32, 133, 160 :: nat})"

definition strip :: "string \<Rightarrow> string" where
  "strip s = rev (dropWhile is_space (rev (dropWhile is_space s)))"

text \<open>\<^verbatim>\<open>s.split(c)\<close> for a one-character separator: never an empty list.\<close>

fun split_on :: "char \<Rightarrow> string \<Rightarrow> string list" where
  "split_on c [] = [[]]"
| "split_on c (d # s) =
     (if d = c then [] # split_on c s
      else case split_on c s of
             [] \<Rightarrow> [[d]]
           | h # t \<Rightarrow> (d # h) # t)"

text \<open>\<^verbatim>\<open>xs[i]\<close> for a non-negative index.\<close>

definition list_get :: "'a list \<Rightarrow> nat \<Rightarrow> exn + 'a" where
  "list_get xs i = (if i < length xs then Inr (xs ! i) else Inl IndexError)"

text \<open>\<^verbatim>\<open>sub in s\<close> on strings; on \<^verbatim>\<open>None\<close> the test raises.\<close>

fun contains :: "string \<Rightarrow> string \<Rightarrow> bool" where
  "contains sub [] = (sub = [])"
| "contains sub (c # s) = (prefix sub (c # s) \<or> contains sub s)"

definition str_in :: "string \<Rightarrow> string option \<Rightarrow> exn + bool" where
  "str_in sub s = (case s of None \<Rightarrow> Inl TypeError | Some t \<Rightarrow> Inr (contains sub t))"

text \<open>
  \<^verbatim>\<open>os.path.join\<close> of a directory and a relative name, as the source uses it; the
  separator is the platform's.
\<close>

definition os_sep :: "'x outside_scheme \<Rightarrow> string" where
  "os_sep x = (if sys_platform x = ''win32'' then [CHR 0x5C] else ''/'')"

definition os_path_join :: "'x outside_scheme \<Rightarrow> string \<Rightarrow> string \<Rightarrow> string" where
  "os_path_join x a b = a @ os_sep x @ b"

text \<open>\<^verbatim>\<open>x or default\<close> on strings that may be \<^verbatim>\<open>None\<close>.\<close>

definition or_default :: "string option \<Rightarrow> string \<Rightarrow> string" where
  "or_default s d = (case s of None \<Rightarrow> d | Some t \<Rightarrow> if t = [] then d else t)"

section \<open>Scoped resources\<close>

text \<open>
  \<^verbatim>\<open>with tempfile.TemporaryDirectory() as tmpdir\<close>: a directory that does not exist yet
  is created, the block runs, and the directory is removed when the block is left,
  whether by its end or by an exception.
\<close>

definition fresh_dir :: "nat list \<Rightarrow> nat" where
  "fresh_dir live = Suc (fold max live 0)"

definition tmp_path :: "nat \<Rightarrow> string" where
  "tmp_path d = ''/tmp/tmp'' @ str_nat d"

definition TemporaryDirectory :: "(string \<Rightarrow> 'a m) \<Rightarrow> 'a m" where
  "TemporaryDirectory block w =
     (let d = fresh_dir (tmp_live w);
          w1 = w\<lparr>tmp_live := d # tmp_live w, log := log w @ [Os (Mkdtemp d)]\<rparr>;
          (r, w2) = block (tmp_path d) w1
      in (r, w2\<lparr>tmp_live := removeAll d (tmp_live w2),
                 log := log w2 @ [Os (Rmtree_tmp d)]\<rparr>))"

text \<open>
  \<^verbatim>\<open>with tools.environment_append(env)\<close>: the package manager's helper restores the
  environment in a \<^verbatim>\<open>finally\<close> clause.
\<close>

definition environment_append :: "(string \<times> string) list \<Rightarrow> 'a m \<Rightarrow> 'a m" where
  "environment_append env block w =
     (let w1 = w\<lparr>log := log w @ [Os (Environ_append env)]\<rparr>;
          (r, w2) = block w1
      in (r, w2\<lparr>log := log w2 @ [Os Environ_restore]\<rparr>))"

section \<open>Login\<close>

definition PROFILE_URL :: string where
  "PROFILE_URL = DL_ARTIFACTORY @ ''/webapp/#/profile''"

definition PASSWORD_MESSAGE :: string where
  "PASSWORD_MESSAGE =
     ''Your encrypted password is required to log you in to Artifactory.''
     @ [CHR 0x0A, CHR 0x0A]
     @ ''To get your encrypted password, go to:'' @ [CHR 0x0A, CHR 0x0A]
     @ PROFILE_URL @ [CHR 0x0A, CHR 0x0A]
     @ ''Enter your password to unlock the page, then click the copy button next to''
     @ [CHR 0x0A] @ ''Encrypted Password.''"

definition input_line :: "'x outside_scheme \<Rightarrow> string \<Rightarrow> string m" where
  "input_line x prompt = then_do (call x (Os (Input_line prompt))) (succeed (stdin_line x))"

definition getpass :: "'x outside_scheme \<Rightarrow> string \<Rightarrow> string m" where
  "getpass x prompt = then_do (call x (Os (Getpass prompt))) (succeed (stdin_password x))"

definition requests_get ::
  "'x outside_scheme \<Rightarrow> string \<Rightarrow> string \<Rightarrow> string \<Rightarrow> (nat \<times> string) m" where
  "requests_get x url username password =
     then_do (call x (Os (Http_get url username password)))
             (succeed (http_response x url username password))"

text \<open>\<^verbatim>\<open>Response.raise_for_status()\<close> raises on the status codes 400 to 599.\<close>

definition raise_for_status :: "nat \<times> string \<Rightarrow> unit m" where
  "raise_for_status r =
     (if 400 \<le> fst r \<and> fst r < 600 then raise HTTPError else succeed ())"

text \<open>
  The block under \<^verbatim>\<open>if token is None\<close>: it asks for the user name unless one was
  given, asks for the password, exchanges it for the token, and gives the new values of
  the local variables \<open>username\<close> and \<open>token\<close>.
\<close>

definition obtain_token ::
  "'x outside_scheme \<Rightarrow> string option \<Rightarrow> (string option \<times> string option) m" where
  "obtain_token x username =
     then_do (emit (Out Highlight PASSWORD_MESSAGE))
    (and_then
       (case username of
          Some u \<Rightarrow> succeed u
        | None \<Rightarrow>
            (let default_username = os_user x in
             and_then
               (input_line x
                  (''Enter your Artifactory username ['' @ default_username @ '']: ''))
               (\<lambda>typed. succeed (if typed = [] then default_username else typed))))
       (\<lambda>username.
     and_then
       (getpass x
          (''Enter encrypted password for '' @ username @ '' on '' @ DL_ARTIFACTORY
             @ '': ''))
       (\<lambda>password.
     and_then
       (requests_get x (DL_ARTIFACTORY @ ''/api/security/encryptedPassword'')
          username password)
       (\<lambda>r.
     then_do (raise_for_status r)
             (succeed (Some username, Some (snd r)))))))"

text \<open>
  The body of the loop of \<open>login\<close> for one remote; the local variables \<open>username\<close> and
  \<open>token\<close> are carried through the loop.
\<close>

definition login_body ::
  "'x outside_scheme \<Rightarrow> string option \<times> string option \<Rightarrow> remote
     \<Rightarrow> (string option \<times> string option) m" where
  "login_body x = (\<lambda>(username, token) (name, url).
     if \<not> prefix DL_ARTIFACTORY url then succeed (username, token)
     else
       let (name', old_token) = login_db x url in
       if old_token \<noteq> None then succeed (username, token)
       else
         and_then
           (if token = None then obtain_token x username else succeed (username, token))
           (\<lambda>(username, token).
              then_do (call x (Api (Authenticate username token name)))
                      (succeed (username, token))))"

text \<open>The body of the task \<open>login\<close>; its pre-task is \<open>setup_remotes\<close>.\<close>

definition login :: "'x outside_scheme \<Rightarrow> string option \<Rightarrow> unit m" where
  "login x username =
     (let token = None in
      then_do (call x (Api Factory))
     (and_then remote_list (\<lambda>rl.
      and_then (for_loop rl (username, token) (login_body x))
               (\<lambda>_. succeed ()))))"

section \<open>The isolated home of the package manager\<close>

definition remote_list_ref :: "'x outside_scheme \<Rightarrow> (string \<times> string) list m" where
  "remote_list_ref x w = (Inr (ref_table x (log w)), w)"

definition remove_remote_refs :: "'x outside_scheme \<Rightarrow> unit m" where
  "remove_remote_refs x =
     and_then (remote_list_ref x) (\<lambda>refs.
       for_each (map fst refs) (\<lambda>ref. call x (Api (Remote_remove_ref ref))))"

text \<open>
  \<^verbatim>\<open>winreg.OpenKey\<close> raises when the key does not exist; of what
  \<^verbatim>\<open>QueryValueEx\<close> raises, only \<^verbatim>\<open>FileNotFoundError\<close> is caught.
\<close>

definition FILESYSTEM_KEY :: string where
  "FILESYSTEM_KEY =
     ''SYSTEM'' @ [CHR 0x5C] @ ''CurrentControlSet'' @ [CHR 0x5C] @ ''Control''
       @ [CHR 0x5C] @ ''FileSystem''"

definition check_long_paths :: "'x outside_scheme \<Rightarrow> unit m" where
  "check_long_paths x =
     (if sys_platform x = ''win32'' then
        (case winreg_open x FILESYSTEM_KEY of
           None \<Rightarrow> raise FileNotFoundError
         | Some key \<Rightarrow>
             and_then
               (case key ''LongPathsEnabled'' of
                  Inr v \<Rightarrow> succeed (v \<noteq> 0)
                | Inl e \<Rightarrow> if e = FileNotFoundError then succeed False else raise e)
               (\<lambda>long_paths_enabled.
                  if \<not> long_paths_enabled then
                    then_do
                      (emit (Out Warn
                         ''It is strongly recommended to enable long paths in Windows''))
                      (emit (Out Warn
                         ''See the LongPathsEnabled.reg file in the tasks directory''))
                  else succeed ()))
      else succeed ())"

text \<open>
  The context manager \<open>temporary_user_home_api\<close>, applied to the block it encloses. The
  API object it yields acts on the world, so the block takes no argument.
\<close>

definition temporary_user_home_api :: "'x outside_scheme \<Rightarrow> 'a m \<Rightarrow> 'a m" where
  "temporary_user_home_api x block =
     (let original_user_home = user_home x in
      TemporaryDirectory (\<lambda>tmpdir.
        let new_user_home = os_path_join x tmpdir ''.conan'' in
        then_do (call x (Os (Copytree original_user_home new_user_home
                               [''data'', ''.conan.db''])))
       (then_do (call x (Os (Chmod new_user_home 511)))
       (then_do (call x (Api Factory))
       (environment_append
          [(''CONAN_USER_HOME'', tmpdir), (''CONAN_USER_HOME_SHORT'', ''None'')]
          (then_do (check_long_paths x)
          (then_do (remove_remote_refs x)
                   block)))))))"

section \<open>Dependency promotion\<close>

definition dependencies :: "'x outside_scheme \<Rightarrow> conanfile list m" where
  "dependencies x =
     then_do (call x (Api (Graph_info ''.'' ''default'' [''never''])))
       (let deps_graph = info_graph x in
        succeed (map node_conanfile
                   (filter (\<lambda>node. node \<noteq> graph_root deps_graph) (graph_nodes deps_graph))))"

definition stable_non_local_dependencies :: "'x outside_scheme \<Rightarrow> conanfile list m" where
  "stable_non_local_dependencies x =
     and_then (dependencies x) (\<lambda>deps.
       succeed
         (filter (\<lambda>dependency.
                    \<not> (cf_user dependency = ''datalogics'' \<or> cf_user dependency = os_user x)
                    \<and> \<not> (cf_channel dependency \<noteq> ''stable''))
            deps))"

text \<open>A reference of the package manager and its text \<open>name/version@user/channel\<close>;
  \<^verbatim>\<open>repr\<close> of a recipe object gives the text of its reference.\<close>

record reference =
  ref_name :: string
  ref_version :: string
  ref_user :: string
  ref_channel :: string

definition str_reference :: "reference \<Rightarrow> string" where
  "str_reference r =
     ref_name r @ ''/'' @ ref_version r @ ''@'' @ ref_user r @ ''/'' @ ref_channel r"

definition repr_conanfile :: "conanfile \<Rightarrow> string" where
  "repr_conanfile c =
     cf_name c @ ''/'' @ cf_version c @ ''@'' @ cf_user c @ ''/'' @ cf_channel c"

text \<open>The body of the loop of \<open>upload_dependencies_internal\<close> for one recipe.\<close>

definition promote_dependency ::
  "'x outside_scheme \<Rightarrow> (string \<times> string) list \<Rightarrow> conanfile \<Rightarrow> unit m" where
  "promote_dependency x remote_refs conanfile =
     (if cf_alias conanfile \<noteq> None then succeed ()
      else
        let ref = repr_conanfile conanfile;
            dl_ref = \<lparr>ref_name = cf_name conanfile, ref_version = cf_version conanfile,
                      ref_user = STABLE_USERNAME, ref_channel = cf_channel conanfile\<rparr>
        in
        then_do (call x (Api (Copy ref (ref_user dl_ref @ ''/'' @ ref_channel dl_ref)
                                 True True)))
       (then_do (call x (Api (Upload (str_reference dl_ref) UPLOAD_DEPENDENCIES_REMOTE
                                 True True True)))
       (then_do (if ref \<in> set (map fst remote_refs)
                 then call x (Api (Remote_update_ref ref REDIRECT_REMOTE))
                 else succeed ())
       (then_do (call x (Api (Remove ref True)))
       (then_do (call x (Api (Export_alias ref (str_reference dl_ref))))
                (call x (Api (Upload ref REDIRECT_REMOTE True False False))))))))"

definition upload_dependencies_internal :: "'x outside_scheme \<Rightarrow> unit option \<Rightarrow> unit m" where
  "upload_dependencies_internal x conan_api =
     then_do (if conan_api = None then call x (Api Factory) else succeed ())
    (and_then (remote_list_ref x) (\<lambda>remote_refs.
     and_then (stable_non_local_dependencies x) (\<lambda>deps.
       for_each deps (promote_dependency x remote_refs))))"

text \<open>The body of the task \<open>upload_dependencies\<close>; its pre-tasks are \<open>login\<close> and
  \<open>install\<close>.\<close>

definition upload_dependencies :: "'x outside_scheme \<Rightarrow> unit m" where
  "upload_dependencies x = upload_dependencies_internal x None"

text \<open>
  The context manager \<open>conan_redirect_removed\<close>, applied to the block it encloses: a
  generator with a bare \<^verbatim>\<open>yield\<close>, so what follows the \<^verbatim>\<open>yield\<close> runs only when
  the block ends without an exception. \<open>redirect_removed_enter\<close> is the part before the
  \<^verbatim>\<open>yield\<close>, \<open>redirect_removed_exit\<close> the part after it.
\<close>

definition redirect_removed_enter :: "'x outside_scheme \<Rightarrow> unit option \<Rightarrow> unit m" where
  "redirect_removed_enter x conan_api =
     then_do (if conan_api = None then call x (Api Factory) else succeed ())
       (and_then remote_list (\<lambda>rl.
          if REDIRECT_REMOTE \<in> set (map fst rl) then remote_remove REDIRECT_REMOTE
          else succeed ()))"

definition redirect_removed_exit :: "unit m" where
  "redirect_removed_exit =
     and_then (dict_get remotes REDIRECT_REMOTE) (\<lambda>url.
       remote_add REDIRECT_REMOTE url None False)"

definition conan_redirect_removed ::
  "'x outside_scheme \<Rightarrow> unit option \<Rightarrow> unit m \<Rightarrow> unit m" where
  "conan_redirect_removed x conan_api block =
     then_do (redirect_removed_enter x conan_api)
    (then_do block
             redirect_removed_exit)"

definition options_list :: "(string \<times> string) list \<Rightarrow> string list" where
  "options_list d = map (\<lambda>(k, v). k @ ''='' @ v) d"

text \<open>
  \<open>get_builder\<close> makes the packaging matrix builder; the items of its matrix, once
  \<^verbatim>\<open>add_common_builds\<close> has run, are \<open>builder_items\<close> of the outside.
\<close>

definition get_builder :: "'x outside_scheme \<Rightarrow> bool \<Rightarrow> string \<Rightarrow> unit m" where
  "get_builder x force_upload username =
     and_then (dict_get remotes UPLOAD_REMOTE) (\<lambda>url.
       call x (Api (Multi_packager username (\<not> force_upload) (url, True, UPLOAD_REMOTE))))"

text \<open>The body of the loop of \<open>install_all_configurations\<close> for one configuration.\<close>

definition install_configuration ::
  "'x outside_scheme \<Rightarrow> string option \<Rightarrow> build_item \<Rightarrow> unit m" where
  "install_configuration x base_profile_name item =
     TemporaryDirectory (\<lambda>tmpdir.
       call x (Api (Install ''.''
         \<lparr>arg_settings = options_list (item_settings item),
          arg_options = options_list (item_options item),
          arg_env = item_env_vars item,
          arg_build = [''missing''],
          arg_profile_name = base_profile_name,
          arg_install_folder = tmpdir\<rparr>
         False)))"

definition install_all_configurations :: "'x outside_scheme \<Rightarrow> unit m" where
  "install_all_configurations x =
     then_do (get_builder x False (os_user x))
    (then_do (call x (Api Add_common_builds))
    (let base_profile_name =
           (if sys_platform x = ''linux'' then Some ''devtoolset-7'' else None)
     in
     conan_redirect_removed x (Some ())
       (for_each (builder_items x) (install_configuration x base_profile_name))))"

text \<open>The body of the task \<open>copy_dependencies\<close>; its pre-task is \<open>login\<close>.\<close>

definition copy_dependencies :: "'x outside_scheme \<Rightarrow> unit m" where
  "copy_dependencies x =
     temporary_user_home_api x
       (then_do (install_all_configurations x)
                (upload_dependencies_internal x (Some ())))"

section \<open>Packaging\<close>

definition tools_deps_env_info :: "'x outside_scheme \<Rightarrow> (string \<times> string) list m" where
  "tools_deps_env_info x =
     then_do (call x (Api Factory))
    (then_do (call x (Api (Install_path ''build_tools'' ''build_tools/build'')))
       (case buildinfo_json x of
          Json_missing \<Rightarrow> raise FileNotFoundError
        | Json_malformed \<Rightarrow> raise JSONDecodeError
        | Json_object conanbuildinfo \<Rightarrow> dict_get conanbuildinfo ''deps_env_info''))"

definition package :: "'x outside_scheme \<Rightarrow> string \<Rightarrow> bool \<Rightarrow> unit m" where
  "package x username force_upload =
     then_do (call x (Os (Environ_set ''CONAN_PIP_USE_SUDO'' ''False'')))
    (then_do (call x (Os (Environ_set ''CONAN_NON_INTERACTIVE'' ''True'')))
    (then_do (get_builder x force_upload username)
    (then_do (call x (Api Add_common_builds))
    (let base_profile_name =
           (if sys_platform x = ''linux'' then Some ''devtoolset-7'' else None)
     in
     and_then (tools_deps_env_info x) (\<lambda>env.
       environment_append env
         (then_do (call x (Api Factory))
         (let leptonica = \<lparr>ref_name = ''leptonica'', ref_version = ''1.76.0'',
                           ref_user = ''bincrafters'', ref_channel = ''stable''\<rparr>
          in
          then_do
            (for_each (builder_items x) (\<lambda>item.
               TemporaryDirectory (\<lambda>tmpdir.
                 call x (Api (Install_reference (str_reference leptonica)
                   \<lparr>arg_settings = options_list (item_settings item),
                    arg_options = options_list (item_options item),
                    arg_env = item_env_vars item,
                    arg_build = [ref_name leptonica, ''missing''],
                    arg_profile_name = base_profile_name,
                    arg_install_folder = tmpdir\<rparr>)))))
            (call x (Api (Builder_run base_profile_name))))))))))"

section \<open>Building (tasks/__init__.py)\<close>

text \<open>The context of a task: the prefixes and directories entered so far.\<close>

record ctx =
  command_prefixes :: "string list"
  command_cwds :: "string list"

definition ctx_run ::
  "'x outside_scheme \<Rightarrow> ctx \<Rightarrow> string \<Rightarrow> (string \<times> string) list \<Rightarrow> unit m" where
  "ctx_run x c command env =
     call x (Os (Run (command_prefixes c) (command_cwds c) command env))"

definition ctx_prefix :: "ctx \<Rightarrow> string \<Rightarrow> ctx" where
  "ctx_prefix c p = c\<lparr>command_prefixes := command_prefixes c @ [p]\<rparr>"

definition activate_command :: "'x outside_scheme \<Rightarrow> string" where
  "activate_command x =
     (if sys_platform x = ''win32'' then abspath x ''build/activate.bat''
      else ''source '' @ abspath x ''build/activate.sh'')"

fun cmake_generator_lines :: "string list \<Rightarrow> exn + string option" where
  "cmake_generator_lines [] = Inr None"
| "cmake_generator_lines (line # cache) =
     (let line = strip line in
      if prefix ''CMAKE_GENERATOR:INTERNAL='' line
      then (case list_get (split_on CHR ''='' line) 1 of
              Inl e \<Rightarrow> Inl e
            | Inr g \<Rightarrow> Inr (Some g))
      else cmake_generator_lines cache)"

definition cmake_generator :: "'x outside_scheme \<Rightarrow> exn + string option" where
  "cmake_generator x =
     (case file_lines x (os_path_join x ''build'' ''CMakeCache.txt'') of
        None \<Rightarrow> Inl FileNotFoundError
      | Some cache \<Rightarrow> cmake_generator_lines cache)"

definition build :: "'x outside_scheme \<Rightarrow> ctx \<Rightarrow> string option \<Rightarrow> bool \<Rightarrow> unit m" where
  "build x c config parallel_flag =
     (let options = '' --build build'';
          build_system_options = [] in
      and_then
        (if parallel_flag then
           and_then (lift (cmake_generator x)) (\<lambda>generator.
           and_then (lift (str_in ''Makefiles'' generator)) (\<lambda>makefiles.
           and_then (if makefiles then lift (str_in ''NMake'' generator) else succeed True)
             (\<lambda>nmake.
           if makefiles \<and> \<not> nmake
           then succeed (build_system_options @ '' -- -j'' @ str_nat (cpu_count x))
           else
             and_then (lift (str_in ''Visual Studio'' generator)) (\<lambda>visual_studio.
               if visual_studio
               then succeed (build_system_options @ '' -- /m:'' @ str_nat (cpu_count x))
               else succeed build_system_options))))
         else succeed build_system_options)
        (\<lambda>build_system_options.
           let options =
                 (if path_exists x (os_path_join x ''build'' ''conanbuildinfo_multi.cmake'')
                  then options @ '' --config '' @ or_default config ''Debug''
                  else options)
           in ctx_run x (ctx_prefix c (activate_command x))
                (''cmake'' @ options @ build_system_options) []))"

section \<open>Username selection\<close>

definition package_username :: "'a outside_scheme \<Rightarrow> string" where
  "package_username x =
     (let branch = ci_branch x;
          prog = re_compile STABLE_BRANCH_PATTERN
      in if (case branch of None \<Rightarrow> False | Some b \<Rightarrow> b \<noteq> [] \<and> re_match prog b)
         then STABLE_USERNAME
         else os_user x)"

section \<open>Inputs for examples\<close>

text \<open>An outside for examples: user \<open>kam\<close> on Linux, no call raises.\<close>

definition quiet :: outside where
  "quiet =
     \<lparr>os_user = ''kam'', ci_branch = None, sys_platform = ''linux'', cpu_count = 4,
      call_raises = (\<lambda>_ _. None),
      login_db = (\<lambda>_. (None, None)),
      stdin_line = [], stdin_password = ''secret'',
      http_response = (\<lambda>_ _ _. (200, ''token'')),
      winreg_open = (\<lambda>_. None),
      user_home = ''/home/kam/.conan'',
      ref_table = (\<lambda>_. []),
      info_graph = \<lparr>graph_root = \<lparr>node_id = 0, node_conanfile =
          \<lparr>cf_name = ''tesseract'', cf_version = ''3.05.01'', cf_user = ''kam'',
           cf_channel = ''testing'', cf_alias = None\<rparr>\<rparr>, graph_nodes = []\<rparr>,
      builder_items = [],
      file_lines = (\<lambda>_. None),
      path_exists = (\<lambda>_. False),
      abspath = (\<lambda>p. ''/work/'' @ p),
      buildinfo_json = Json_missing\<rparr>"

definition on_branch :: "string option \<Rightarrow> outside" where
  "on_branch b = quiet\<lparr>ci_branch := b\<rparr>"

text \<open>An outside whose cache file exists and names no generator.\<close>

definition no_generator :: outside where
  "no_generator =
     quiet\<lparr>file_lines := (\<lambda>p. if p = ''build/CMakeCache.txt''
                                 then Some [''CMAKE_BUILD_TYPE:STRING=Debug''] else None)\<rparr>"

text \<open>A world to start from: the canonical remotes, no temporary directory, an empty log.\<close>

definition start :: world where
  "start = \<lparr>registry = remotes, tmp_live = [], log = []\<rparr>"

section \<open>Predicates on statements\<close>

text \<open>
  \<open>appends P p\<close>: from every world, \<open>p\<close> only adds events at the end of the log, and the
  events it adds satisfy \<open>P\<close>, whether \<open>p\<close> returns or raises.
  \<open>scoped p\<close>: from every world, \<open>p\<close> leaves behind exactly the temporary directories
  it found, whether it returns or raises.
\<close>

definition appends :: "(event list \<Rightarrow> bool) \<Rightarrow> 'a m \<Rightarrow> bool" where
  "appends P p \<longleftrightarrow> (\<forall>w. \<exists>es. log (snd (p w)) = log w @ es \<and> P es)"

definition scoped :: "'a m \<Rightarrow> bool" where
  "scoped p \<longleftrightarrow> (\<forall>w. tmp_live (snd (p w)) = tmp_live w)"

text \<open>
  An outside with one dependency to promote, \<open>zlib/1.2.11@conan/stable\<close>, and one
  configuration in the packaging matrix.
\<close>

definition zlib :: conanfile where
  "zlib = \<lparr>cf_name = ''zlib'', cf_version = ''1.2.11'', cf_user = ''conan'',
           cf_channel = ''stable'', cf_alias = None\<rparr>"

definition one_dependency :: outside where
  "one_dependency =
     quiet\<lparr>info_graph :=
             \<lparr>graph_root = graph_root (info_graph quiet),
              graph_nodes = [graph_root (info_graph quiet),
                             \<lparr>node_id = 1, node_conanfile = zlib\<rparr>]\<rparr>,
           builder_items :=
             [\<lparr>item_settings = [(''arch'', ''x86_64'')], item_options = [],
               item_env_vars = [], item_build_requires = [],
               item_reference = ''tesseract/3.05.01@kam/testing''\<rparr>]\<rparr>"

text \<open>The same, but every \<^verbatim>\<open>install\<close> of the package manager raises.\<close>

definition failing_install :: outside where
  "failing_install =
     one_dependency\<lparr>call_raises :=
       (\<lambda>h e. case e of Api (Install path args generators) \<Rightarrow> Some ConanException
                        | _ \<Rightarrow> None)\<rparr>"

text \<open>A world whose list of remotes does not have the redirect remote.\<close>

definition without_redirect :: world where
  "without_redirect =
     \<lparr>registry = [(''conan-center'', ''https://conan.bintray.com'')], tmp_live = [], log = []\<rparr>"

section \<open>Login: what the claims speak of\<close>

text \<open>
  A remote needs a login when its URL is under the Artifactory host and the token store
  has no token for that URL. \<open>effective_username\<close> is the user name in force once the
  prompt, if any, is answered; \<open>prompt_events\<close> is the one round of prompting and
  exchange; \<open>login_token\<close> is the text of the response to the exchange.
\<close>

definition needs_login :: "'x outside_scheme \<Rightarrow> remote \<Rightarrow> bool" where
  "needs_login x r \<longleftrightarrow> prefix DL_ARTIFACTORY (snd r) \<and> snd (login_db x (snd r)) = None"

definition effective_username :: "'x outside_scheme \<Rightarrow> string option \<Rightarrow> string" where
  "effective_username x username =
     (case username of
        Some u \<Rightarrow> u
      | None \<Rightarrow> if stdin_line x = [] then os_user x else stdin_line x)"

definition exchange_url :: string where
  "exchange_url = DL_ARTIFACTORY @ ''/api/security/encryptedPassword''"

definition prompt_events :: "'x outside_scheme \<Rightarrow> string option \<Rightarrow> event list" where
  "prompt_events x username =
     [Out Highlight PASSWORD_MESSAGE]
     @ (case username of
          Some u \<Rightarrow> []
        | None \<Rightarrow> [Os (Input_line (''Enter your Artifactory username ['' @ os_user x
                                      @ '']: ''))])
     @ [Os (Getpass (''Enter encrypted password for '' @ effective_username x username
                       @ '' on '' @ DL_ARTIFACTORY @ '': '')),
        Os (Http_get exchange_url (effective_username x username) (stdin_password x))]"

definition login_response :: "'x outside_scheme \<Rightarrow> string option \<Rightarrow> nat \<times> string" where
  "login_response x username =
     http_response x exchange_url (effective_username x username) (stdin_password x)"

definition is_getpass :: "event \<Rightarrow> bool" where
  "is_getpass e = (case e of Os (Getpass prompt) \<Rightarrow> True | _ \<Rightarrow> False)"

definition is_input :: "event \<Rightarrow> bool" where
  "is_input e = (case e of Os (Input_line prompt) \<Rightarrow> True | _ \<Rightarrow> False)"

definition is_http :: "event \<Rightarrow> bool" where
  "is_http e = (case e of Os (Http_get url u p) \<Rightarrow> True | _ \<Rightarrow> False)"

definition is_authenticate :: "event \<Rightarrow> bool" where
  "is_authenticate e = (case e of Api (Authenticate u t r) \<Rightarrow> True | _ \<Rightarrow> False)"

definition calls_return :: "'x outside_scheme \<Rightarrow> bool" where
  "calls_return x \<longleftrightarrow> (\<forall>h e. call_raises x h e = None)"

text \<open>Lists of events without a prompt or exchange, and with at most one of each.\<close>

definition prompt_free :: "event list \<Rightarrow> bool" where
  "prompt_free es \<longleftrightarrow> filter is_getpass es = [] \<and> filter is_input es = [] \<and> filter is_http es = []"

definition prompts_once :: "event list \<Rightarrow> bool" where
  "prompts_once es \<longleftrightarrow>
     length (filter is_getpass es) \<le> 1 \<and> length (filter is_input es) \<le> 1 \<and>
     length (filter is_http es) \<le> 1"


text \<open>An outside whose token store has a token for every URL.\<close>

definition all_cached :: outside where
  "all_cached = quiet\<lparr>login_db := (\<lambda>url. (Some ''kam'', Some ''cached''))\<rparr>"

text \<open>An outside whose exchange is refused with status 401.\<close>

definition refused :: outside where
  "refused = quiet\<lparr>http_response := (\<lambda>url u p. (401, ''Unauthorized''))\<rparr>"

text \<open>Windows, with the registry key, without the value; and without the key.\<close>

definition windows_without_value :: outside where
  "windows_without_value =
     quiet\<lparr>sys_platform := ''win32'',
           winreg_open := (\<lambda>k. if k = FILESYSTEM_KEY
                                 then Some (\<lambda>v. Inl FileNotFoundError) else None)\<rparr>"

definition windows_without_key :: outside where
  "windows_without_key = quiet\<lparr>sys_platform := ''win32''\<rparr>"

section \<open>Dependency promotion: what the claims speak of\<close>

text \<open>
  The resolved dependencies of the project are the recipes of the nodes of the graph
  other than its root. \<open>stable_foreign\<close> is the condition of the claim: channel
  \<open>stable\<close>, user neither \<open>datalogics\<close> nor the local user. \<open>promotion_calls\<close> is
  the calls that promote one dependency, given the references the package manager has a
  remote for.
\<close>

definition resolved_dependencies :: "'x outside_scheme \<Rightarrow> conanfile list" where
  "resolved_dependencies x =
     map node_conanfile
       (filter (\<lambda>node. node \<noteq> graph_root (info_graph x)) (graph_nodes (info_graph x)))"

definition stable_foreign :: "'x outside_scheme \<Rightarrow> conanfile \<Rightarrow> bool" where
  "stable_foreign x d \<longleftrightarrow>
     cf_channel d = ''stable'' \<and> cf_user d \<noteq> ''datalogics'' \<and> cf_user d \<noteq> os_user x"

definition datalogics_reference :: "conanfile \<Rightarrow> string" where
  "datalogics_reference d =
     cf_name d @ ''/'' @ cf_version d @ ''@datalogics/'' @ cf_channel d"

definition promotion_calls :: "(string \<times> string) list \<Rightarrow> conanfile \<Rightarrow> event list" where
  "promotion_calls remote_refs d =
     [Api (Copy (repr_conanfile d) (''datalogics/'' @ cf_channel d) True True),
      Api (Upload (datalogics_reference d) ''conan-ext'' True True True)]
     @ (if repr_conanfile d \<in> set (map fst remote_refs)
        then [Api (Remote_update_ref (repr_conanfile d) ''conan-redirect'')] else [])
     @ [Api (Remove (repr_conanfile d) True),
        Api (Export_alias (repr_conanfile d) (datalogics_reference d)),
        Api (Upload (repr_conanfile d) ''conan-redirect'' True False False)]"

text \<open>
  An outside whose one dependency, \<open>zlib/1.2.11@conan/stable\<close>, is an alias recipe.
\<close>

definition alias_dependency :: outside where
  "alias_dependency =
     quiet\<lparr>info_graph :=
             \<lparr>graph_root = graph_root (info_graph quiet),
              graph_nodes = [graph_root (info_graph quiet),
                             \<lparr>node_id = 1, node_conanfile =
                                zlib\<lparr>cf_alias := Some ''zlib/1.2.11@conan/testing''\<rparr>\<rparr>]\<rparr>\<rparr>"

section \<open>The order of the pipeline: what the claims speak of\<close>

text \<open>
  The steps of \<open>copy_dependencies\<close> numbered in the order the specification gives
  them (\<open>claimed_stage\<close>): an upload to \<open>conan-ext\<close> is the upload of a dependency,
  an upload to another remote belongs to the creation of the alias. A log is in stage
  order when the stages of its events, those that have one, never go down.
  \<open>coarse_stage\<close> numbers the phases of the code, with the whole promotion of the
  dependencies as one phase; it serves only to say, of runs that raise as well, that no
  phase starts before the one before it has ended. The order inside the promotion is
  that of \<open>promotion_calls\<close>.
\<close>

fun claimed_stage :: "event \<Rightarrow> nat option" where
  "claimed_stage (Os (Copytree src dst ignored)) = Some 0"
| "claimed_stage (Api (Remote_remove_ref ref)) = Some 1"
| "claimed_stage (Api (Install path args generators)) = Some 2"
| "claimed_stage (Api (Copy ref user_channel force packages)) = Some 3"
| "claimed_stage (Api (Upload ref remote confirm force all_packages)) =
     (if remote = UPLOAD_DEPENDENCIES_REMOTE then Some 3 else Some 4)"
| "claimed_stage (Api (Export_alias ref target)) = Some 4"
| "claimed_stage (Api (Remote_add name url insert_at force)) = Some 5"
| "claimed_stage e = None"

fun coarse_stage :: "event \<Rightarrow> nat option" where
  "coarse_stage (Os (Copytree src dst ignored)) = Some 0"
| "coarse_stage (Api (Remote_remove_ref ref)) = Some 1"
| "coarse_stage (Api (Remote_remove name)) = Some 2"
| "coarse_stage (Api (Install path args generators)) = Some 3"
| "coarse_stage (Api (Remote_add name url insert_at force)) = Some 4"
| "coarse_stage (Api (Graph_info path profile policy)) = Some 5"
| "coarse_stage (Api (Copy ref user_channel force packages)) = Some 5"
| "coarse_stage (Api (Upload ref remote confirm force all_packages)) = Some 5"
| "coarse_stage (Api (Remote_update_ref ref remote)) = Some 5"
| "coarse_stage (Api (Remove ref force)) = Some 5"
| "coarse_stage (Api (Export_alias ref target)) = Some 5"
| "coarse_stage e = None"

definition stages :: "(event \<Rightarrow> nat option) \<Rightarrow> event list \<Rightarrow> nat list" where
  "stages stage es = List.map_filter stage es"

definition in_stage_order :: "(event \<Rightarrow> nat option) \<Rightarrow> event list \<Rightarrow> bool" where
  "in_stage_order stage es \<longleftrightarrow> sorted (stages stage es)"

definition staged :: "nat \<Rightarrow> nat \<Rightarrow> event list \<Rightarrow> bool" where
  "staged lo hi es \<longleftrightarrow>
     sorted (stages coarse_stage es) \<and>
     (\<forall>n \<in> set (stages coarse_stage es). lo \<le> n \<and> n \<le> hi)"

text \<open>
  An outside with the dependency \<open>zlib/1.2.11@conan/stable\<close> and one configuration,
  where the package manager has a remote for the reference: at the start and again
  once something has been installed.
\<close>

definition is_install :: "event \<Rightarrow> bool" where
  "is_install e = (case e of Api (Install path args generators) \<Rightarrow> True | _ \<Rightarrow> False)"

definition with_remote_ref :: outside where
  "with_remote_ref =
     one_dependency\<lparr>ref_table :=
       (\<lambda>h. if (\<exists>e \<in> set h. is_install e)
                  \<or> Api (Remote_remove_ref ''zlib/1.2.11@conan/stable'') \<notin> set h
             then [(''zlib/1.2.11@conan/stable'', ''conan-center'')]
             else [])\<rparr>"

text \<open>
  A world whose one remote has the name \<open>conan-redirect\<close> and the URL of \<open>conan-ext\<close>;
  the empty list of remotes; and a list where the URL of \<open>conan-center\<close> goes by
  another name.
\<close>

definition misnamed :: world where
  "misnamed =
     \<lparr>registry = [(''conan-redirect'', DL_ARTIFACTORY @ ''/api/conan/conan-ext'')],
      tmp_live = [], log = []\<rparr>"

definition no_remotes :: world where
  "no_remotes = \<lparr>registry = [], tmp_live = [], log = []\<rparr>"

definition other_name :: world where
  "other_name =
     \<lparr>registry = [(''mine'', ''https://example.org/conan''),
                  (''bintray'', ''https://conan.bintray.com'')],
      tmp_live = [], log = []\<rparr>"

section \<open>Errors: what the claims speak of\<close>

text \<open>
  \<open>oracle_asked e\<close>: the event \<open>e\<close> is a call that can raise as the outside decides
  (a call into the package manager other than the remote-list calls, whose failures
  the list decides, or into the operating system, the console or the network);
  printing and the entry and exit of a \<^verbatim>\<open>with\<close> block are not.
  \<open>calls_returned x h es\<close>: of the events \<open>es\<close>, logged after \<open>h\<close>, every such call
  returned. \<open>propagates x p\<close>: a run of \<open>p\<close> that returns has had all its calls
  return, so no exception of a call is swallowed. \<open>aborts p\<close>: \<open>p\<close> raises from
  every world.
\<close>

fun oracle_asked :: "event \<Rightarrow> bool" where
  "oracle_asked (Out level message) = False"
| "oracle_asked (Api (Remote_rename old new)) = False"
| "oracle_asked (Api (Remote_add name url insert_at force)) = False"
| "oracle_asked (Api (Remote_remove name)) = False"
| "oracle_asked (Os (Mkdtemp d)) = False"
| "oracle_asked (Os (Rmtree_tmp d)) = False"
| "oracle_asked (Os (Environ_append env)) = False"
| "oracle_asked (Os Environ_restore) = False"
| "oracle_asked e = True"

fun calls_returned :: "'x outside_scheme \<Rightarrow> event list \<Rightarrow> event list \<Rightarrow> bool" where
  "calls_returned x h [] = True"
| "calls_returned x h (e # es) =
     ((oracle_asked e \<longrightarrow> call_raises x h e = None) \<and> calls_returned x (h @ [e]) es)"

definition propagates :: "'x outside_scheme \<Rightarrow> 'a m \<Rightarrow> bool" where
  "propagates x p \<longleftrightarrow>
     (\<forall>w. \<exists>es. log (snd (p w)) = log w @ es \<and>
             ((\<exists>r. fst (p w) = Inr r) \<longrightarrow> calls_returned x (log w) es))"

definition aborts :: "'a m \<Rightarrow> bool" where
  "aborts p \<longleftrightarrow> (\<forall>w. \<exists>e. fst (p w) = Inl e)"

section \<open>The pipeline, step by step: what the claims speak of\<close>

text \<open>
  The events of a run of \<open>copy_dependencies\<close> that completes, in the order of the
  code. \<open>d\<close> is the temporary directory of the isolated home and \<open>d2\<close> the one of an
  install; \<open>h\<close> is the log at the moment the package manager is asked for its remote
  refs.
  \<^item> \<open>isolate_events\<close>: make the temporary directory, copy the user home into it,
    make the API object and point the environment at the copy; then the warnings of
    the long-paths check, if any.
  \<^item> \<open>strip_events\<close>: remove every remote ref.
  \<^item> \<open>install_all_events\<close>: make the matrix builder, remove the redirect remote if
    the list has it, install each configuration in a temporary directory of its
    own, add the redirect remote again.
  \<^item> \<open>promotion_events\<close>: resolve the graph, then promote the dependencies one after
    the other, each with \<open>promotion_calls\<close>.
  \<^item> \<open>pipeline_log\<close>: these four in sequence, then the environment is restored and
    the temporary directory removed.
\<close>

definition long_path_warnings :: "'x outside_scheme \<Rightarrow> event list" where
  "long_path_warnings x =
     log (snd (check_long_paths x \<lparr>registry = [], tmp_live = [], log = []\<rparr>))"

definition long_paths_checked :: "'x outside_scheme \<Rightarrow> bool" where
  "long_paths_checked x \<longleftrightarrow>
     fst (check_long_paths x \<lparr>registry = [], tmp_live = [], log = []\<rparr>) = Inr ()"

definition redirect_url :: string where
  "redirect_url = DL_ARTIFACTORY @ ''/api/conan/conan-redirect''"

definition isolate_events :: "'x outside_scheme \<Rightarrow> nat \<Rightarrow> event list" where
  "isolate_events x d =
     [Os (Mkdtemp d),
      Os (Copytree (user_home x) (os_path_join x (tmp_path d) ''.conan'')
            [''data'', ''.conan.db'']),
      Os (Chmod (os_path_join x (tmp_path d) ''.conan'') 511),
      Api Factory,
      Os (Environ_append
            [(''CONAN_USER_HOME'', tmp_path d), (''CONAN_USER_HOME_SHORT'', ''None'')])]
     @ long_path_warnings x"

definition strip_events :: "'x outside_scheme \<Rightarrow> event list \<Rightarrow> event list" where
  "strip_events x h = map (\<lambda>r. Api (Remote_remove_ref (fst r))) (ref_table x h)"

definition install_events :: "'x outside_scheme \<Rightarrow> nat \<Rightarrow> build_item \<Rightarrow> event list" where
  "install_events x d2 item =
     [Os (Mkdtemp d2),
      Api (Install ''.''
             \<lparr>arg_settings = options_list (item_settings item),
              arg_options = options_list (item_options item),
              arg_env = item_env_vars item,
              arg_build = [''missing''],
              arg_profile_name =
                (if sys_platform x = ''linux'' then Some ''devtoolset-7'' else None),
              arg_install_folder = tmp_path d2\<rparr>
             False),
      Os (Rmtree_tmp d2)]"

definition install_all_events ::
  "'x outside_scheme \<Rightarrow> remote list \<Rightarrow> nat \<Rightarrow> event list" where
  "install_all_events x rs d2 =
     [Api (Multi_packager (os_user x) True
             (DL_ARTIFACTORY @ ''/api/conan/conan-local'', True, ''conan-local'')),
      Api Add_common_builds]
     @ (if ''conan-redirect'' \<in> set (map fst rs)
        then [Api (Remote_remove ''conan-redirect'')] else [])
     @ concat (map (install_events x d2) (builder_items x))
     @ [Api (Remote_add ''conan-redirect'' redirect_url None False)]"

definition promotion_events :: "'x outside_scheme \<Rightarrow> event list \<Rightarrow> event list" where
  "promotion_events x h =
     Api (Graph_info ''.'' ''default'' [''never''])
     # concat (map (promotion_calls (ref_table x h))
         (filter (\<lambda>d. stable_foreign x d \<and> cf_alias d = None) (resolved_dependencies x)))"

definition pipeline_log :: "'x outside_scheme \<Rightarrow> world \<Rightarrow> event list" where
  "pipeline_log x w =
     (let d = fresh_dir (tmp_live w);
          isolated = isolate_events x d;
          stripped = strip_events x (log w @ isolated);
          installed = install_all_events x (registry w) (fresh_dir (d # tmp_live w));
          promoted = promotion_events x (log w @ isolated @ stripped @ installed)
      in isolated @ stripped @ installed @ promoted
         @ [Os Environ_restore, Os (Rmtree_tmp d)])"

text \<open>
  A list where \<open>conan-center\<close> names another URL and the canonical URL goes by the
  name \<open>bintray\<close>.
\<close>

definition taken_name :: world where
  "taken_name =
     \<lparr>registry = [(''conan-center'', ''https://example.org/center''),
                  (''bintray'', ''https://conan.bintray.com'')],
      tmp_live = [], log = []\<rparr>"

section \<open>Username selection: properties\<close>

lemma re_match_any_tail: "re_match [Star Dot] s"
  by (induction s) auto

lemma re_match_Lit:
  "re_match (One (Lit a) # r) s \<longleftrightarrow> (\<exists>t. s = a # t \<and> re_match r t)"
  by (cases s) auto

lemma stable_pattern_compiled:
  "re_compile STABLE_BRANCH_PATTERN =
     map (One \<circ> Lit) ''dl/stable/'' @ [Star Dot]"
  by (simp add: STABLE_BRANCH_PATTERN_def atom_of_def)

lemma re_match_literal_prefix:
  "re_match (map (One \<circ> Lit) p @ r) s \<longleftrightarrow> (\<exists>t. s = p @ t \<and> re_match r t)"
  by (induction p arbitrary: s) (auto simp: re_match_Lit)

lemma stable_pattern_prefix:
  "re_match (re_compile STABLE_BRANCH_PATTERN) b \<longleftrightarrow> prefix ''dl/stable/'' b"
  unfolding stable_pattern_compiled re_match_literal_prefix
  by (auto simp: re_match_any_tail prefix_def)

text \<open>
  C4. \<open>package_username\<close> returns the stable identity \<open>datalogics\<close> when the current
  branch name matches the release-branch regular expression \<open>dl/stable/.*\<close> (which is
  to say, when it starts with \<open>dl/stable/\<close>), and the local user name otherwise, also
  when there is no branch.
\<close>

theorem package_username_selects:
  "(\<forall>b. ci_branch x = Some b \<and> re_match (re_compile STABLE_BRANCH_PATTERN) b
      \<longrightarrow> package_username x = ''datalogics'') \<and>
   (\<not> (\<exists>b. ci_branch x = Some b \<and> re_match (re_compile STABLE_BRANCH_PATTERN) b)
      \<longrightarrow> package_username x = os_user x) \<and>
   (\<forall>b. re_match (re_compile STABLE_BRANCH_PATTERN) b \<longleftrightarrow> prefix ''dl/stable/'' b)"
proof (intro conjI allI impI)
  fix b
  assume h: "ci_branch x = Some b \<and> re_match (re_compile STABLE_BRANCH_PATTERN) b"
  then have "prefix ''dl/stable/'' b"
    by (simp add: stable_pattern_prefix)
  then have "b \<noteq> []"
    by auto
  with h show "package_username x = ''datalogics''"
    by (simp add: package_username_def STABLE_USERNAME_def)
next
  assume "\<not> (\<exists>b. ci_branch x = Some b \<and> re_match (re_compile STABLE_BRANCH_PATTERN) b)"
  then show "package_username x = os_user x"
    by (cases "ci_branch x") (auto simp: package_username_def)
next
  fix b
  show "re_match (re_compile STABLE_BRANCH_PATTERN) b \<longleftrightarrow> prefix ''dl/stable/'' b"
    by (rule stable_pattern_prefix)
qed

theorem package_username_selects_witness:
  "package_username (on_branch (Some ''dl/stable/1.0'')) = ''datalogics'' \<and>
   package_username (on_branch (Some ''develop'')) = ''kam'' \<and>
   package_username (on_branch None) = ''kam''"
proof -
  have m: "re_match (re_compile STABLE_BRANCH_PATTERN) ''dl/stable/1.0''"
    by (simp add: STABLE_BRANCH_PATTERN_def atom_of_def)
  have n: "\<not> re_match (re_compile STABLE_BRANCH_PATTERN) ''develop''"
    by (simp add: STABLE_BRANCH_PATTERN_def atom_of_def)
  show ?thesis
    using package_username_selects
            [of "(on_branch (Some ''dl/stable/1.0''))"]
          package_username_selects
            [of "(on_branch (Some ''develop''))"]
          package_username_selects
            [of "(on_branch None)"]
          m n
    by (simp add: on_branch_def quiet_def)
qed

section \<open>Running statements\<close>

lemma succeed_run: "succeed a w = (Inr a, w)"
  by (simp add: succeed_def)

lemma raise_run: "raise e w = (Inl e, w)"
  by (simp add: raise_def)

lemma and_then_succeed [simp]: "and_then (succeed a) f = f a"
  by (simp add: fun_eq_iff and_then_def succeed_def)

lemma and_then_raise [simp]: "and_then (raise e) f = raise e"
  by (simp add: fun_eq_iff and_then_def raise_def)

lemma then_do_succeed [simp]: "then_do (succeed ()) q = q"
  by (simp add: then_do_def)

lemma then_do_raise [simp]: "then_do (raise e) q = raise e"
  by (simp add: then_do_def)

lemma lift_Inr [simp]: "lift (Inr a) = succeed a"
  by (simp add: fun_eq_iff lift_def succeed_def)

lemma lift_Inl [simp]: "lift (Inl e) = raise e"
  by (simp add: fun_eq_iff lift_def raise_def)

lemma and_then_Inr: "p w = (Inr a, w') \<Longrightarrow> and_then p f w = f a w'"
  by (simp add: and_then_def)

lemma and_then_Inl: "p w = (Inl e, w') \<Longrightarrow> and_then p f w = (Inl e, w')"
  by (simp add: and_then_def)

lemma then_do_Inr: "p w = (Inr (), w') \<Longrightarrow> then_do p q w = q w'"
  by (simp add: then_do_def and_then_def)

lemma then_do_Inl: "p w = (Inl e, w') \<Longrightarrow> then_do p q w = (Inl e, w')"
  by (simp add: then_do_def and_then_def)

section \<open>Building: properties\<close>

lemma cmake_generator_lines_none:
  "\<forall>line \<in> set cache. \<not> prefix ''CMAKE_GENERATOR:INTERNAL='' (strip line)
     \<Longrightarrow> cmake_generator_lines cache = Inr None"
  by (induction cache) simp_all

lemma build_raises_early:
  "cmake_generator x = Inl e \<Longrightarrow> build x c config True w = (Inl e, w)"
  by (simp add: build_def) (simp add: raise_run)

lemma build_raises_on_None:
  "cmake_generator x = Inr None \<Longrightarrow> build x c config True w = (Inl TypeError, w)"
  by (simp add: build_def str_in_def) (simp add: raise_run)

text \<open>
  C10, as amended. When \<open>build\<close> runs with \<open>parallel\<close> enabled, it fails with an
  uncaught error before any build command runs (the world, and so the log, is the one it
  started from) in both cases: when \<open>build/CMakeCache.txt\<close> is absent, opening it raises
  \<open>FileNotFoundError\<close> inside \<open>cmake_generator\<close>, which returns nothing; when the
  file has no line that starts, once stripped, with \<open>CMAKE_GENERATOR:INTERNAL=\<close>,
  \<open>cmake_generator\<close> returns \<open>None\<close> and the membership test on it raises
  \<open>TypeError\<close>.
\<close>

theorem build_parallel_needs_generator:
  "(file_lines x (os_path_join x ''build'' ''CMakeCache.txt'') = None \<longrightarrow>
      cmake_generator x = Inl FileNotFoundError \<and>
      build x c config True w = (Inl FileNotFoundError, w)) \<and>
   (\<forall>cache. file_lines x (os_path_join x ''build'' ''CMakeCache.txt'') = Some cache \<and>
      (\<forall>line \<in> set cache. \<not> prefix ''CMAKE_GENERATOR:INTERNAL='' (strip line)) \<longrightarrow>
      cmake_generator x = Inr None \<and>
      build x c config True w = (Inl TypeError, w))"
proof (intro conjI allI impI)
  assume "file_lines x (os_path_join x ''build'' ''CMakeCache.txt'') = None"
  then show g: "cmake_generator x = Inl FileNotFoundError"
    by (simp add: cmake_generator_def)
  then show "build x c config True w = (Inl FileNotFoundError, w)"
    by (rule build_raises_early)
next
  fix cache
  assume h: "file_lines x (os_path_join x ''build'' ''CMakeCache.txt'') = Some cache \<and>
    (\<forall>line \<in> set cache. \<not> prefix ''CMAKE_GENERATOR:INTERNAL='' (strip line))"
  then show g: "cmake_generator x = Inr None"
    by (simp add: cmake_generator_def cmake_generator_lines_none)
  then show "build x c config True w = (Inl TypeError, w)"
    by (rule build_raises_on_None)
qed

theorem build_parallel_needs_generator_witness:
  "file_lines quiet (os_path_join quiet ''build'' ''CMakeCache.txt'') = None \<and>
   build quiet \<lparr>command_prefixes = [], command_cwds = []\<rparr> None True start
     = (Inl FileNotFoundError, start) \<and>
   file_lines no_generator (os_path_join no_generator ''build'' ''CMakeCache.txt'')
     = Some [''CMAKE_BUILD_TYPE:STRING=Debug''] \<and>
   build no_generator \<lparr>command_prefixes = [], command_cwds = []\<rparr> None True start
     = (Inl TypeError, start)"
proof -
  have a: "file_lines quiet (os_path_join quiet ''build'' ''CMakeCache.txt'') = None"
    by (simp add: quiet_def)
  have b: "file_lines no_generator (os_path_join no_generator ''build'' ''CMakeCache.txt'')
             = Some [''CMAKE_BUILD_TYPE:STRING=Debug'']"
    by (simp add: no_generator_def quiet_def os_path_join_def os_sep_def)
  have s: "strip ''CMAKE_BUILD_TYPE:STRING=Debug'' = ''CMAKE_BUILD_TYPE:STRING=Debug''"
    by (simp add: strip_def is_space_def)
  have c: "\<forall>line \<in> set [''CMAKE_BUILD_TYPE:STRING=Debug''].
             \<not> prefix ''CMAKE_GENERATOR:INTERNAL='' (strip line)"
    by (simp add: s)
  show ?thesis
    using a b c
      build_parallel_needs_generator
        [of quiet "\<lparr>command_prefixes = [], command_cwds = []\<rparr>" None start]
      build_parallel_needs_generator
        [of no_generator "\<lparr>command_prefixes = [], command_cwds = []\<rparr>" None start]
    by blast
qed

text \<open>
  C10, as first stated, says that \<open>cmake_generator\<close> returns \<open>None\<close> also when the cache
  file is absent. It does not: with no file it raises.
\<close>

theorem cmake_generator_absent_counterexample:
  "\<not> (file_lines quiet (os_path_join quiet ''build'' ''CMakeCache.txt'') = None
        \<longrightarrow> cmake_generator quiet = Inr None)"
  by (simp add: quiet_def cmake_generator_def)

section \<open>Temporary directories: properties\<close>

lemma fold_max_ge: "b \<le> fold max xs (b::nat)"
  by (induction xs arbitrary: b) (auto intro: order_trans [OF max.cobounded2])

lemma fold_max_mem: "a \<in> set xs \<Longrightarrow> a \<le> fold max xs (b::nat)"
proof (induction xs arbitrary: b)
  case Nil
  then show ?case by simp
next
  case (Cons y ys)
  show ?case
  proof (cases "a = y")
    case True
    have "y \<le> max y b" by simp
    also have "\<dots> \<le> fold max ys (max y b)" by (rule fold_max_ge)
    finally show ?thesis using True by simp
  next
    case False
    with Cons show ?thesis by simp
  qed
qed

lemma fresh_dir_new: "fresh_dir live \<notin> set live"
proof
  assume "fresh_dir live \<in> set live"
  then have "fresh_dir live \<le> fold max live 0" by (rule fold_max_mem)
  then show False by (simp add: fresh_dir_def)
qed

lemma scoped_succeed [intro!]: "scoped (succeed a)"
  by (simp add: scoped_def succeed_def)

lemma scoped_raise [intro!]: "scoped (raise e)"
  by (simp add: scoped_def raise_def)

lemma scoped_lift [intro!]: "scoped (lift r)"
  by (simp add: scoped_def lift_def)

lemma scoped_emit [intro!]: "scoped (emit e)"
  by (simp add: scoped_def emit_def)

lemma scoped_call [intro!]: "scoped (call x e)"
  by (simp add: scoped_def call_def split: option.split)

lemma scoped_registry_call [intro!]: "scoped (registry_call e f)"
  by (simp add: scoped_def registry_call_def split: sum.split)

lemma scoped_remote_list [intro!]: "scoped remote_list"
  by (simp add: scoped_def remote_list_def)

lemma scoped_remote_list_ref [intro!]: "scoped (remote_list_ref x)"
  by (simp add: scoped_def remote_list_ref_def)

lemma scoped_and_then [intro!]:
  assumes "scoped p" and "\<And>a. scoped (f a)"
  shows "scoped (and_then p f)"
  unfolding scoped_def
proof
  fix w
  obtain r w' where pw: "p w = (r, w')" by (cases "p w")
  from assms(1) pw have l: "tmp_live w' = tmp_live w"
    by (auto simp: scoped_def dest: spec [of _ w])
  show "tmp_live (snd (and_then p f w)) = tmp_live w"
  proof (cases r)
    case (Inl e)
    with pw l show ?thesis by (simp add: and_then_def)
  next
    case (Inr a)
    from assms(2) [of a] have "tmp_live (snd (f a w')) = tmp_live w'"
      by (simp add: scoped_def)
    with Inr pw l show ?thesis by (simp add: and_then_def)
  qed
qed

lemma scoped_then_do [intro!]: "scoped p \<Longrightarrow> scoped q \<Longrightarrow> scoped (then_do p q)"
  by (auto simp: then_do_def)

lemma scoped_for_each [intro!]: "(\<And>a. scoped (body a)) \<Longrightarrow> scoped (for_each as body)"
  by (induction as) auto

lemma scoped_for_loop [intro!]: "(\<And>s a. scoped (body s a)) \<Longrightarrow> scoped (for_loop as s body)"
  by (induction as arbitrary: s) auto

lemma scoped_TemporaryDirectory [intro!]:
  assumes "\<And>tmpdir. scoped (block tmpdir)"
  shows "scoped (TemporaryDirectory block)"
  unfolding scoped_def
proof
  fix w :: world
  define d where "d = fresh_dir (tmp_live w)"
  define w1 where "w1 = w\<lparr>tmp_live := d # tmp_live w, log := log w @ [Os (Mkdtemp d)]\<rparr>"
  obtain r w2 where b: "block (tmp_path d) w1 = (r, w2)" by (cases "block (tmp_path d) w1")
  from assms [of "tmp_path d"] b have "tmp_live w2 = d # tmp_live w"
    by (auto simp: scoped_def w1_def dest: spec [of _ w1])
  moreover have "d \<notin> set (tmp_live w)"
    unfolding d_def by (rule fresh_dir_new)
  ultimately show "tmp_live (snd (TemporaryDirectory block w)) = tmp_live w"
    using b by (simp add: TemporaryDirectory_def Let_def d_def [symmetric] w1_def [symmetric])
qed

lemma scoped_environment_append [intro!]:
  assumes "scoped block"
  shows "scoped (environment_append env block)"
  unfolding scoped_def
proof
  fix w :: world
  define w1 where "w1 = w\<lparr>log := log w @ [Os (Environ_append env)]\<rparr>"
  obtain r w2 where b: "block w1 = (r, w2)" by (cases "block w1")
  from assms b have "tmp_live w2 = tmp_live w"
    by (auto simp: scoped_def w1_def dest: spec [of _ w1])
  then show "tmp_live (snd (environment_append env block w)) = tmp_live w"
    using b by (simp add: environment_append_def Let_def w1_def [symmetric])
qed

lemma scoped_dict_get [intro!]: "scoped (dict_get d k)"
  by (auto simp: dict_get_def split: option.split)

lemma scoped_check_long_paths [intro!]: "scoped (check_long_paths x)"
  by (auto simp: check_long_paths_def split: option.split sum.split)

lemma scoped_remove_remote_refs [intro!]: "scoped (remove_remote_refs x)"
  by (auto simp: remove_remote_refs_def)

lemma scoped_conan_redirect_removed [intro!]:
  "scoped block \<Longrightarrow> scoped (conan_redirect_removed x conan_api block)"
  by (auto simp: conan_redirect_removed_def redirect_removed_enter_def
      redirect_removed_exit_def remote_remove_def remote_add_def)

lemma scoped_get_builder [intro!]: "scoped (get_builder x force_upload username)"
  by (auto simp: get_builder_def)

lemma scoped_install_all_configurations: "scoped (install_all_configurations x)"
  by (auto simp: install_all_configurations_def install_configuration_def Let_def)

lemma scoped_upload_dependencies_internal [intro!]:
  "scoped (upload_dependencies_internal x conan_api)"
  by (auto simp: upload_dependencies_internal_def stable_non_local_dependencies_def
      dependencies_def promote_dependency_def Let_def)

lemma scoped_temporary_user_home_api [intro!]:
  "scoped block \<Longrightarrow> scoped (temporary_user_home_api x block)"
  by (auto simp: temporary_user_home_api_def Let_def)

lemma scoped_copy_dependencies: "scoped (copy_dependencies x)"
  by (auto simp: copy_dependencies_def intro: scoped_install_all_configurations)

lemma scoped_tools_deps_env_info [intro!]: "scoped (tools_deps_env_info x)"
  by (auto simp: tools_deps_env_info_def split: json_file.split)

lemma scoped_package: "scoped (package x username force_upload)"
  by (auto simp: package_def Let_def)


text \<open>
  C8. Every temporary directory acquired for the isolated home of the package manager
  (\<open>temporary_user_home_api\<close>, so \<open>copy_dependencies\<close>) or for install staging
  (\<open>install_all_configurations\<close>, \<open>package\<close>) is removed when its block is left:
  whatever the calls inside do, and whether the task returns or raises, the temporary
  directories that exist afterwards are those that existed before. The directory a
  \<^verbatim>\<open>with\<close> block acquires is gone after the block, whatever the block does.
\<close>

theorem temporary_directories_scoped:
  "tmp_live (snd (copy_dependencies x w)) = tmp_live w \<and>
   tmp_live (snd (install_all_configurations x w)) = tmp_live w \<and>
   tmp_live (snd (package x username force_upload w)) = tmp_live w \<and>
   tmp_live (snd (temporary_user_home_api x (raise e :: unit m) w)) = tmp_live w \<and>
   fresh_dir (tmp_live w) \<notin> set (tmp_live (snd (TemporaryDirectory block w)))"
proof (intro conjI)
  show "tmp_live (snd (copy_dependencies x w)) = tmp_live w"
    using scoped_copy_dependencies [of x] by (simp add: scoped_def)
  show "tmp_live (snd (install_all_configurations x w)) = tmp_live w"
    using scoped_install_all_configurations [of x] by (simp add: scoped_def)
  show "tmp_live (snd (package x username force_upload w)) = tmp_live w"
    using scoped_package [of x username force_upload] by (simp add: scoped_def)
  have "scoped (temporary_user_home_api x (raise e :: unit m))"
    by (rule scoped_temporary_user_home_api) (rule scoped_raise)
  then show "tmp_live (snd (temporary_user_home_api x (raise e :: unit m) w)) = tmp_live w"
    by (simp add: scoped_def)
  show "fresh_dir (tmp_live w) \<notin> set (tmp_live (snd (TemporaryDirectory block w)))"
    by (simp add: TemporaryDirectory_def Let_def split: prod.split)
qed

theorem temporary_directories_scoped_witness:
  "fst (copy_dependencies failing_install start) = Inl ConanException \<and>
   Os (Mkdtemp 1) \<in> set (log (snd (copy_dependencies failing_install start))) \<and>
   Os (Mkdtemp 2) \<in> set (log (snd (copy_dependencies failing_install start))) \<and>
   tmp_live (snd (copy_dependencies failing_install start)) = []"
proof -
  have a: "fst (copy_dependencies failing_install start) = Inl ConanException"
    by code_simp
  have b: "Os (Mkdtemp 1) \<in> set (log (snd (copy_dependencies failing_install start)))"
    by code_simp
  have c: "Os (Mkdtemp 2) \<in> set (log (snd (copy_dependencies failing_install start)))"
    by code_simp
  have d: "tmp_live start = []"
    by (simp add: start_def)
  from a b c d
    temporary_directories_scoped
      [of failing_install start "''kam''" False ConanException "\<lambda>_. succeed ()"]
  show ?thesis
    by simp
qed

section \<open>The redirect remote around a block: properties\<close>

lemma registry_remove_gone:
  "registry_remove name rs = Inr rs' \<Longrightarrow> name \<notin> set (map fst rs')"
  by (auto simp: registry_remove_def split: if_splits)

lemma redirect_removed_enter_gone:
  assumes "redirect_removed_enter x conan_api w = (Inr (), w1)"
  shows "REDIRECT_REMOTE \<notin> set (map fst (registry w1))"
proof -
  define w0 where "w0 = (if conan_api = None then w\<lparr>log := log w @ [Api Factory]\<rparr> else w)"
  have r0: "registry w0 = registry w"
    by (simp add: w0_def)
  have step: "(and_then remote_list (\<lambda>rl.
          if REDIRECT_REMOTE \<in> set (map fst rl) then remote_remove REDIRECT_REMOTE
          else succeed ())) w0 = (Inr (), w1)"
    using assms
    by (auto simp: redirect_removed_enter_def then_do_def and_then_def call_def succeed_def
        w0_def split: if_splits option.splits)
  show ?thesis
  proof (cases "REDIRECT_REMOTE \<in> set (map fst (registry w0))")
    case True
    with step obtain rs where "registry_remove REDIRECT_REMOTE (registry w0) = Inr rs"
      and "registry w1 = rs"
      by (auto simp: and_then_def remote_list_def remote_remove_def registry_call_def
          split: sum.splits)
    then show ?thesis
      using registry_remove_gone by blast
  next
    case False
    with step have "w1 = w0"
      by (auto simp: and_then_def remote_list_def succeed_def)
    with False show ?thesis by simp
  qed
qed

lemma redirect_removed_exit_run:
  "redirect_removed_exit w =
     remote_add REDIRECT_REMOTE (DL_ARTIFACTORY @ ''/api/conan/conan-redirect'') None False w"
  by (simp add: redirect_removed_exit_def dict_get_def remotes_def REDIRECT_REMOTE_def)

lemma remote_add_logs:
  "log (snd (remote_add name url insert_at force w))
     = log w @ [Api (Remote_add name url insert_at force)]"
  by (simp add: remote_add_def registry_call_def split: sum.split)

text \<open>
  C9. If the block of \<open>conan_redirect_removed\<close> raises, the exception leaves the context
  manager as it is and nothing runs after it: the redirect remote, which is not in the
  list of remotes when the block starts, is not added again. If the block ends without
  an exception, \<open>remote_add\<close> is called for the redirect remote, whether or not the
  remote was in the list when the context was entered.
\<close>

theorem conan_redirect_removed_exits:
  "(\<forall>w1 w2 e. redirect_removed_enter x conan_api w = (Inr (), w1) \<and> block w1 = (Inl e, w2)
      \<longrightarrow> conan_redirect_removed x conan_api block w = (Inl e, w2) \<and>
          REDIRECT_REMOTE \<notin> set (map fst (registry w1))) \<and>
   (\<forall>w1 w2. redirect_removed_enter x conan_api w = (Inr (), w1) \<and> block w1 = (Inr (), w2)
      \<longrightarrow> conan_redirect_removed x conan_api block w
            = remote_add REDIRECT_REMOTE (DL_ARTIFACTORY @ ''/api/conan/conan-redirect'')
                None False w2 \<and>
          log (snd (conan_redirect_removed x conan_api block w))
            = log w2 @ [Api (Remote_add REDIRECT_REMOTE
                              (DL_ARTIFACTORY @ ''/api/conan/conan-redirect'') None False)])"
proof (intro conjI allI impI)
  fix w1 w2 e
  assume h: "redirect_removed_enter x conan_api w = (Inr (), w1) \<and> block w1 = (Inl e, w2)"
  then show "conan_redirect_removed x conan_api block w = (Inl e, w2)"
    by (simp add: conan_redirect_removed_def then_do_Inr then_do_Inl)
  from h show "REDIRECT_REMOTE \<notin> set (map fst (registry w1))"
    using redirect_removed_enter_gone by blast
next
  fix w1 w2
  assume h: "redirect_removed_enter x conan_api w = (Inr (), w1) \<and> block w1 = (Inr (), w2)"
  then show r: "conan_redirect_removed x conan_api block w
            = remote_add REDIRECT_REMOTE (DL_ARTIFACTORY @ ''/api/conan/conan-redirect'')
                None False w2"
    by (simp add: conan_redirect_removed_def then_do_Inr redirect_removed_exit_run)
  show "log (snd (conan_redirect_removed x conan_api block w))
            = log w2 @ [Api (Remote_add REDIRECT_REMOTE
                              (DL_ARTIFACTORY @ ''/api/conan/conan-redirect'') None False)]"
    unfolding r by (rule remote_add_logs)
qed


theorem conan_redirect_removed_exits_witness:
  "conan_redirect_removed quiet (Some ()) (raise ConanException) start
     = (Inl ConanException,
        start\<lparr>registry := tl remotes, log := [Api (Remote_remove REDIRECT_REMOTE)]\<rparr>) \<and>
   REDIRECT_REMOTE \<notin> set (map fst (tl remotes)) \<and>
   REDIRECT_REMOTE \<notin> set (map fst (registry without_redirect)) \<and>
   map fst (registry (snd (conan_redirect_removed quiet (Some ()) (succeed ())
                             without_redirect)))
     = [''conan-center'', ''conan-redirect'']"
proof -
  let ?s1 = "start\<lparr>registry := tl remotes, log := [Api (Remote_remove REDIRECT_REMOTE)]\<rparr>"
  have e1: "redirect_removed_enter quiet (Some ()) start = (Inr (), ?s1)"
    by code_simp
  have b1: "(raise ConanException :: unit m) ?s1 = (Inl ConanException, ?s1)"
    by (simp add: raise_run)
  have e2: "redirect_removed_enter quiet (Some ()) without_redirect
              = (Inr (), without_redirect)"
    by code_simp
  have b2: "succeed () without_redirect = (Inr (), without_redirect)"
    by (simp add: succeed_run)
  have a2: "map fst (registry (snd (remote_add REDIRECT_REMOTE
              (DL_ARTIFACTORY @ ''/api/conan/conan-redirect'') None False without_redirect)))
              = [''conan-center'', ''conan-redirect'']"
    by code_simp
  have n2: "REDIRECT_REMOTE \<notin> set (map fst (registry without_redirect))"
    by code_simp
  have r1: "conan_redirect_removed quiet (Some ()) (raise ConanException) start
              = (Inl ConanException, ?s1) \<and>
            REDIRECT_REMOTE \<notin> set (map fst (registry ?s1))"
    using conan_redirect_removed_exits
            [of quiet "Some ()" start "raise ConanException"] e1 b1
    by blast
  have r2: "conan_redirect_removed quiet (Some ()) (succeed ()) without_redirect
              = remote_add REDIRECT_REMOTE (DL_ARTIFACTORY @ ''/api/conan/conan-redirect'')
                  None False without_redirect"
    using conan_redirect_removed_exits
            [of quiet "Some ()" without_redirect "succeed ()"] e2 b2
    by blast
  from r1 r2 a2 n2 show ?thesis
    by simp
qed

section \<open>Login: properties\<close>

lemma call_quiet:
  "calls_return x \<Longrightarrow> call x e w = (Inr (), w\<lparr>log := log w @ [e]\<rparr>)"
  by (simp add: call_def calls_return_def)

lemma login_body_skip: "\<not> needs_login x r \<Longrightarrow> login_body x s r = succeed s"
  by (cases s; cases r) (auto simp: login_body_def needs_login_def split: prod.splits)

lemma login_body_token:
  "needs_login x r \<Longrightarrow>
   login_body x (username, Some t) r
     = then_do (call x (Api (Authenticate username (Some t) (fst r))))
               (succeed (username, Some t))"
  by (cases r) (auto simp: login_body_def needs_login_def split: prod.splits)

lemma login_body_prompt:
  "needs_login x r \<Longrightarrow>
   login_body x (username, None) r
     = and_then (obtain_token x username) (\<lambda>(username, token).
         then_do (call x (Api (Authenticate username token (fst r))))
                 (succeed (username, token)))"
  by (cases r) (auto simp: login_body_def needs_login_def split: prod.splits)

lemma obtain_token_quiet:
  assumes "calls_return x"
  shows "obtain_token x username w =
     (if 400 \<le> fst (login_response x username) \<and> fst (login_response x username) < 600
      then Inl HTTPError
      else Inr (Some (effective_username x username), Some (snd (login_response x username))),
      w\<lparr>log := log w @ prompt_events x username\<rparr>)"
  by (cases username)
     (simp_all add: obtain_token_def input_line_def getpass_def requests_get_def
       raise_for_status_def then_do_def and_then_def emit_def call_quiet [OF assms]
       succeed_def raise_def prompt_events_def effective_username_def login_response_def
       exchange_url_def Let_def)

lemma login_loop_token:
  assumes "calls_return x"
  shows "for_loop rl (username, Some t) (login_body x) w =
     (Inr (username, Some t),
      w\<lparr>log := log w @ map (\<lambda>r. Api (Authenticate username (Some t) (fst r)))
                           (filter (needs_login x) rl)\<rparr>)"
proof (induction rl arbitrary: w)
  case Nil
  show ?case by (simp add: succeed_def)
next
  case (Cons r rl)
  show ?case
  proof (cases "needs_login x r")
    case True
    then show ?thesis
      by (simp add: login_body_token then_do_def and_then_def call_quiet [OF assms]
          succeed_def Cons.IH)
  next
    case False
    then show ?thesis
      by (simp add: login_body_skip Cons.IH)
  qed
qed

lemma login_loop_nothing:
  "filter (needs_login x) rl = [] \<Longrightarrow> for_loop rl s (login_body x) w = (Inr s, w)"
proof (induction rl)
  case Nil
  show ?case by (simp add: succeed_def)
next
  case (Cons r rl)
  then have "\<not> needs_login x r" and "filter (needs_login x) rl = []"
    by (auto split: if_splits)
  with Cons.IH show ?case
    by (simp add: login_body_skip)
qed

lemma login_loop_prompt:
  assumes "calls_return x" and "filter (needs_login x) rl \<noteq> []"
  shows "for_loop rl (username, None) (login_body x) w =
     (if 400 \<le> fst (login_response x username) \<and> fst (login_response x username) < 600
      then (Inl HTTPError, w\<lparr>log := log w @ prompt_events x username\<rparr>)
      else (Inr (Some (effective_username x username),
                 Some (snd (login_response x username))),
            w\<lparr>log := log w @ prompt_events x username
                   @ map (\<lambda>r. Api (Authenticate (Some (effective_username x username))
                                      (Some (snd (login_response x username))) (fst r)))
                         (filter (needs_login x) rl)\<rparr>))"
  using assms(2)
proof (induction rl)
  case Nil
  then show ?case by simp
next
  case (Cons r rl)
  show ?case
  proof (cases "needs_login x r")
    case True
    then show ?thesis
      by (simp add: login_body_prompt and_then_def obtain_token_quiet [OF assms(1)]
          then_do_def call_quiet [OF assms(1)] succeed_def login_loop_token [OF assms(1)])
  next
    case False
    with Cons.prems have "filter (needs_login x) rl \<noteq> []" by simp
    with False Cons.IH show ?thesis
      by (simp add: login_body_skip)
  qed
qed


lemma prompts_once_append:
  "prompts_once es \<Longrightarrow> prompt_free es' \<Longrightarrow> prompts_once (es @ es')"
  by (simp add: prompts_once_def prompt_free_def)

lemma prompt_free_authenticate: "prompt_free [Api (Authenticate u t n)]"
  by (simp add: prompt_free_def is_getpass_def is_input_def is_http_def)

lemma prompt_free_append:
  "prompt_free es \<Longrightarrow> prompt_free es' \<Longrightarrow> prompt_free (es @ es')"
  by (simp add: prompt_free_def)

lemma call_any:
  "\<exists>r. call x e w = (r, w\<lparr>log := log w @ [e]\<rparr>)"
  by (simp add: call_def split: option.split)

lemma obtain_token_any:
  "\<exists>es. log (snd (obtain_token x username w)) = log w @ es \<and> prompts_once es \<and>
        (\<forall>s. fst (obtain_token x username w) = Inr s \<longrightarrow> snd s \<noteq> None)"
  by (cases username)
     (auto simp: obtain_token_def input_line_def getpass_def requests_get_def
       raise_for_status_def then_do_def and_then_def emit_def call_def
       succeed_def raise_def Let_def prompts_once_def is_getpass_def is_input_def is_http_def
       split: option.splits)

lemma login_loop_token_any:
  "\<exists>es. log (snd (for_loop rl (username, Some t) (login_body x) w)) = log w @ es \<and>
        prompt_free es"
proof (induction rl arbitrary: w)
  case Nil
  show ?case by (simp add: succeed_def prompt_free_def)
next
  case (Cons r rl)
  show ?case
  proof (cases "needs_login x r")
    case False
    with Cons.IH [of w] show ?thesis
      by (simp add: login_body_skip)
  next
    case True
    let ?e = "Api (Authenticate username (Some t) (fst r))"
    let ?w = "w\<lparr>log := log w @ [?e]\<rparr>"
    obtain res where c: "call x ?e w = (res, ?w)"
      using call_any by blast
    show ?thesis
    proof (cases res)
      case (Inl ex)
      with c True have "log (snd (for_loop (r # rl) (username, Some t) (login_body x) w))
                          = log w @ [?e]"
        by (simp add: login_body_token then_do_def and_then_def)
      then show ?thesis
        using prompt_free_authenticate by blast
    next
      case (Inr u)
      from Cons.IH [of ?w] obtain es where
        es: "log (snd (for_loop rl (username, Some t) (login_body x) ?w)) = log ?w @ es"
        and pf: "prompt_free es"
        by blast
      from Inr c True have "for_loop (r # rl) (username, Some t) (login_body x) w
                              = for_loop rl (username, Some t) (login_body x) ?w"
        by (simp add: login_body_token then_do_def and_then_def succeed_def)
      with es have "log (snd (for_loop (r # rl) (username, Some t) (login_body x) w))
                      = log w @ ([?e] @ es)"
        by simp
      moreover have "prompt_free ([?e] @ es)"
        using pf prompt_free_authenticate by (rule prompt_free_append [rotated])
      ultimately show ?thesis by blast
    qed
  qed
qed

lemma login_loop_prompt_any:
  "\<exists>es. log (snd (for_loop rl (username, None) (login_body x) w)) = log w @ es \<and>
        prompts_once es"
proof (induction rl arbitrary: w)
  case Nil
  show ?case by (simp add: succeed_def prompts_once_def)
next
  case (Cons r rl)
  show ?case
  proof (cases "needs_login x r")
    case False
    with Cons.IH [of w] show ?thesis
      by (simp add: login_body_skip)
  next
    case True
    obtain res w1 where ot: "obtain_token x username w = (res, w1)"
      by (cases "obtain_token x username w")
    from obtain_token_any [of x username w] ot obtain es1 where
      l1: "log w1 = log w @ es1" and p1: "prompts_once es1" and
      tok: "\<forall>s. res = Inr s \<longrightarrow> snd s \<noteq> None"
      by auto
    show ?thesis
    proof (cases res)
      case (Inl ex)
      with ot True have "for_loop (r # rl) (username, None) (login_body x) w = (Inl ex, w1)"
        by (simp add: login_body_prompt and_then_def)
      with l1 p1 show ?thesis by auto
    next
      case (Inr s)
      with tok obtain u t where s: "s = (u, Some t)"
        by (cases s) auto
      let ?e = "Api (Authenticate u (Some t) (fst r))"
      let ?w = "w1\<lparr>log := log w1 @ [?e]\<rparr>"
      obtain res2 where c: "call x ?e w1 = (res2, ?w)"
        using call_any by blast
      have p2: "prompts_once (es1 @ [?e])"
        using p1 prompt_free_authenticate by (rule prompts_once_append)
      show ?thesis
      proof (cases res2)
        case (Inl ex)
        with ot Inr s c True
        have "for_loop (r # rl) (username, None) (login_body x) w = (Inl ex, ?w)"
          by (simp add: login_body_prompt and_then_def then_do_def)
        with l1 have "log (snd (for_loop (r # rl) (username, None) (login_body x) w))
                        = log w @ (es1 @ [?e])"
          by simp
        with p2 show ?thesis by blast
      next
        case (Inr v)
        with ot \<open>res = Inr s\<close> s c True
        have "for_loop (r # rl) (username, None) (login_body x) w
                = for_loop rl (u, Some t) (login_body x) ?w"
          by (simp add: login_body_prompt and_then_def then_do_def succeed_def)
        moreover from login_loop_token_any [of rl u t x ?w] obtain es2 where
          "log (snd (for_loop rl (u, Some t) (login_body x) ?w)) = log ?w @ es2"
          and pf: "prompt_free es2"
          by blast
        ultimately have "log (snd (for_loop (r # rl) (username, None) (login_body x) w))
                           = log w @ ((es1 @ [?e]) @ es2)"
          using l1 by simp
        moreover have "prompts_once ((es1 @ [?e]) @ es2)"
          using p2 pf by (rule prompts_once_append)
        ultimately show ?thesis by blast
      qed
    qed
  qed
qed

lemma login_any:
  "\<exists>es. log (snd (login x username w)) = log w @ es \<and> prompts_once es"
proof -
  let ?w = "w\<lparr>log := log w @ [Api Factory]\<rparr>"
  obtain res where c: "call x (Api Factory) w = (res, ?w)"
    using call_any by blast
  have pf: "prompts_once [Api Factory]"
    by (simp add: prompts_once_def is_getpass_def is_input_def is_http_def)
  show ?thesis
  proof (cases res)
    case (Inl ex)
    with c have "login x username w = (Inl ex, ?w)"
      by (simp add: login_def then_do_def and_then_def)
    with pf show ?thesis by auto
  next
    case (Inr v)
    from login_loop_prompt_any [of "registry w" username x ?w] obtain es where
      es: "log (snd (for_loop (registry w) (username, None) (login_body x) ?w)) = log ?w @ es"
      and po: "prompts_once es"
      by blast
    from Inr c have "log (snd (login x username w))
                 = log (snd (for_loop (registry w) (username, None) (login_body x) ?w))"
      by (simp add: login_def then_do_def and_then_def remote_list_def succeed_def
          split: prod.split sum.split)
    with es have "log (snd (login x username w)) = log w @ ([Api Factory] @ es)"
      by simp
    moreover from po have "prompts_once ([Api Factory] @ es)"
      by (simp add: prompts_once_def is_getpass_def is_input_def is_http_def)
    ultimately show ?thesis by blast
  qed
qed

lemma login_nothing_to_do:
  assumes "filter (needs_login x) (registry w) = []"
  shows "log (snd (login x username w)) = log w @ [Api Factory]"
proof -
  let ?w = "w\<lparr>log := log w @ [Api Factory]\<rparr>"
  obtain res where c: "call x (Api Factory) w = (res, ?w)"
    using call_any by blast
  from assms have "for_loop (registry w) (username, None) (login_body x) ?w
                     = (Inr (username, None), ?w)"
    by (rule login_loop_nothing)
  with c show ?thesis
    by (cases res)
       (simp_all add: login_def then_do_def and_then_def remote_list_def succeed_def)
qed

lemma login_quiet:
  assumes "calls_return x" and "filter (needs_login x) (registry w) \<noteq> []"
  shows "login x username w =
     (if 400 \<le> fst (login_response x username) \<and> fst (login_response x username) < 600
      then (Inl HTTPError, w\<lparr>log := log w @ [Api Factory] @ prompt_events x username\<rparr>)
      else (Inr (),
            w\<lparr>log := log w @ [Api Factory] @ prompt_events x username
                   @ map (\<lambda>r. Api (Authenticate (Some (effective_username x username))
                                      (Some (snd (login_response x username))) (fst r)))
                         (filter (needs_login x) (registry w))\<rparr>))"
proof -
  let ?w = "w\<lparr>log := log w @ [Api Factory]\<rparr>"
  note loop = login_loop_prompt [OF assms, of username ?w]
  show ?thesis
    by (simp add: login_def then_do_def and_then_def call_quiet [OF assms(1)]
        remote_list_def loop succeed_def)
qed


text \<open>
  C5. During \<open>login\<close>, a remote that is not under the Artifactory host, or whose URL has
  a cached token, is skipped: when no remote needs a login, nothing is asked and nothing
  is sent. Otherwise the user is asked at most once for the user name and at most once
  for the password, and at most one HTTP request is made, in every run; and when the
  calls return and the exchange succeeds, the run is one round of prompting and
  exchange followed by one \<open>authenticate\<close>, with the token of that exchange, for each
  remote that needs a login, in the order of the list.
\<close>

theorem login_prompts_once:
  "\<exists>es. log (snd (login x username w)) = log w @ es \<and>
     length (filter is_getpass es) \<le> 1 \<and>
     length (filter is_input es) \<le> 1 \<and>
     length (filter is_http es) \<le> 1 \<and>
     (filter (needs_login x) (registry w) = [] \<longrightarrow> es = [Api Factory]) \<and>
     (calls_return x \<and> filter (needs_login x) (registry w) \<noteq> [] \<and>
      \<not> (400 \<le> fst (login_response x username) \<and> fst (login_response x username) < 600)
      \<longrightarrow> fst (login x username w) = Inr () \<and>
          es = [Api Factory] @ prompt_events x username
               @ map (\<lambda>r. Api (Authenticate (Some (effective_username x username))
                                  (Some (snd (login_response x username))) (fst r)))
                     (filter (needs_login x) (registry w)))"
proof -
  from login_any [of x username w] obtain es where
    es: "log (snd (login x username w)) = log w @ es" and po: "prompts_once es"
    by blast
  have a: "filter (needs_login x) (registry w) = [] \<longrightarrow> es = [Api Factory]"
    using login_nothing_to_do [of x w username] es by auto
  have b: "calls_return x \<and> filter (needs_login x) (registry w) \<noteq> [] \<and>
      \<not> (400 \<le> fst (login_response x username) \<and> fst (login_response x username) < 600)
      \<longrightarrow> fst (login x username w) = Inr () \<and>
          es = [Api Factory] @ prompt_events x username
               @ map (\<lambda>r. Api (Authenticate (Some (effective_username x username))
                                  (Some (snd (login_response x username))) (fst r)))
                     (filter (needs_login x) (registry w))"
  proof (intro impI)
    assume h: "calls_return x \<and> filter (needs_login x) (registry w) \<noteq> [] \<and>
      \<not> (400 \<le> fst (login_response x username) \<and> fst (login_response x username) < 600)"
    then have "login x username w =
       (Inr (),
            w\<lparr>log := log w @ [Api Factory] @ prompt_events x username
                   @ map (\<lambda>r. Api (Authenticate (Some (effective_username x username))
                                      (Some (snd (login_response x username))) (fst r)))
                         (filter (needs_login x) (registry w))\<rparr>)"
      using login_quiet [of x w username] by auto
    with es show "fst (login x username w) = Inr () \<and>
          es = [Api Factory] @ prompt_events x username
               @ map (\<lambda>r. Api (Authenticate (Some (effective_username x username))
                                  (Some (snd (login_response x username))) (fst r)))
                     (filter (needs_login x) (registry w))"
      by simp
  qed
  from es po a b show ?thesis
    unfolding prompts_once_def by blast
qed

theorem login_prompts_once_witness:
  "log (snd (login quiet None start))
     = [Api Factory] @ prompt_events quiet None
       @ [Api (Authenticate (Some ''kam'') (Some ''token'') ''conan-redirect''),
          Api (Authenticate (Some ''kam'') (Some ''token'') ''conan-ext''),
          Api (Authenticate (Some ''kam'') (Some ''token'') ''conan-local'')] \<and>
   log (snd (login all_cached None start)) = [Api Factory]"
proof -
  have c: "calls_return quiet"
    by (simp add: calls_return_def quiet_def)
  have n: "filter (needs_login quiet) (registry start) = take 3 remotes"
    by code_simp
  have r: "login_response quiet None = (200, ''token'')"
    by (simp add: login_response_def quiet_def)
  have u: "effective_username quiet None = ''kam''"
    by (simp add: effective_username_def quiet_def)
  have m: "filter (needs_login all_cached) (registry start) = []"
    by code_simp
  have l: "log start = []"
    by (simp add: start_def)
  have t: "take 3 remotes \<noteq> []" "map fst (take 3 remotes)
             = [''conan-redirect'', ''conan-ext'', ''conan-local'']"
    by (simp_all add: remotes_def)
  from login_prompts_once [of quiet None start] c n r u l t
  have 1: "log (snd (login quiet None start))
     = [Api Factory] @ prompt_events quiet None
       @ [Api (Authenticate (Some ''kam'') (Some ''token'') ''conan-redirect''),
          Api (Authenticate (Some ''kam'') (Some ''token'') ''conan-ext''),
          Api (Authenticate (Some ''kam'') (Some ''token'') ''conan-local'')]"
    by (auto simp: remotes_def)
  from login_prompts_once [of all_cached None start] m l
  have 2: "log (snd (login all_cached None start)) = [Api Factory]"
    by auto
  from 1 2 show ?thesis ..
qed

section \<open>Errors: properties\<close>

lemma check_long_paths_no_key:
  "sys_platform x = ''win32'' \<Longrightarrow> winreg_open x FILESYSTEM_KEY = None
     \<Longrightarrow> check_long_paths x w = (Inl FileNotFoundError, w)"
  by (simp add: check_long_paths_def raise_run)

lemma copy_dependencies_no_key:
  assumes "calls_return x" and "sys_platform x = ''win32''"
    and "winreg_open x FILESYSTEM_KEY = None"
  shows "fst (copy_dependencies x w) = Inl FileNotFoundError"
  by (simp add: copy_dependencies_def temporary_user_home_api_def TemporaryDirectory_def
      environment_append_def Let_def then_do_def and_then_def call_quiet [OF assms(1)]
      check_long_paths_no_key [OF assms(2,3)] split: prod.split)

section \<open>Errors: no exception of a call is swallowed\<close>

lemma calls_returned_append:
  "calls_returned x h (es @ es') \<longleftrightarrow>
     calls_returned x h es \<and> calls_returned x (h @ es) es'"
  by (induction es arbitrary: h) auto

lemma propagates_succeed [intro!]: "propagates x (succeed a)"
  by (simp add: propagates_def succeed_def)

lemma propagates_raise [intro!]: "propagates x (raise e)"
  by (simp add: propagates_def raise_def)

lemma propagates_lift [intro!]: "propagates x (lift r)"
  by (simp add: propagates_def lift_def)

lemma propagates_remote_list [intro!]: "propagates x remote_list"
  by (simp add: propagates_def remote_list_def)

lemma propagates_remote_list_ref [intro!]: "propagates x (remote_list_ref y)"
  by (simp add: propagates_def remote_list_ref_def)

lemma propagates_dict_get [intro!]: "propagates x (dict_get d k)"
  by (auto simp: dict_get_def split: option.split)

lemma propagates_emit [intro!]: "\<not> oracle_asked e \<Longrightarrow> propagates x (emit e)"
  by (simp add: propagates_def emit_def)

lemma propagates_call [intro!]: "propagates x (call x e)"
  by (simp add: propagates_def call_def split: option.split)

lemma propagates_registry_call [intro!]:
  "\<not> oracle_asked e \<Longrightarrow> propagates x (registry_call e f)"
  by (simp add: propagates_def registry_call_def split: sum.split)

lemma propagates_and_then [intro!]:
  assumes p: "propagates x p" and f: "\<And>a. propagates x (f a)"
  shows "propagates x (and_then p f)"
  unfolding propagates_def
proof
  fix w :: world
  obtain r w' where pw: "p w = (r, w')" by (cases "p w")
  from p pw obtain es where es: "log w' = log w @ es"
    and ok: "(\<exists>a. r = Inr a) \<longrightarrow> calls_returned x (log w) es"
    by (auto simp: propagates_def dest: spec [of _ w])
  show "\<exists>es. log (snd (and_then p f w)) = log w @ es \<and>
          ((\<exists>r. fst (and_then p f w) = Inr r) \<longrightarrow> calls_returned x (log w) es)"
  proof (cases r)
    case (Inl e)
    with pw es show ?thesis
      by (auto simp: and_then_def)
  next
    case (Inr a)
    from f [of a] obtain es' where es': "log (snd (f a w')) = log w' @ es'"
      and ok': "(\<exists>r. fst (f a w') = Inr r) \<longrightarrow> calls_returned x (log w') es'"
      by (auto simp: propagates_def dest: spec [of _ w'])
    have "log (snd (and_then p f w)) = log w @ (es @ es')"
      using Inr pw es es' by (simp add: and_then_def)
    moreover have "(\<exists>r. fst (and_then p f w) = Inr r)
                     \<longrightarrow> calls_returned x (log w) (es @ es')"
      using Inr pw es ok ok' by (auto simp: and_then_def calls_returned_append)
    ultimately show ?thesis by blast
  qed
qed

lemma propagates_then_do [intro!]:
  "propagates x p \<Longrightarrow> propagates x q \<Longrightarrow> propagates x (then_do p q)"
  by (auto simp: then_do_def)

lemma propagates_for_each [intro!]:
  "(\<And>a. propagates x (body a)) \<Longrightarrow> propagates x (for_each as body)"
  by (induction as) auto

lemma propagates_for_loop [intro!]:
  "(\<And>s a. propagates x (body s a)) \<Longrightarrow> propagates x (for_loop as s body)"
  by (induction as arbitrary: s) auto

lemma propagates_TemporaryDirectory [intro!]:
  assumes b: "\<And>tmpdir. propagates x (block tmpdir)"
  shows "propagates x (TemporaryDirectory block)"
  unfolding propagates_def
proof
  fix w :: world
  define d where "d = fresh_dir (tmp_live w)"
  define w1 where "w1 = w\<lparr>tmp_live := d # tmp_live w, log := log w @ [Os (Mkdtemp d)]\<rparr>"
  obtain r w2 where bw: "block (tmp_path d) w1 = (r, w2)" by (cases "block (tmp_path d) w1")
  from b [of "tmp_path d"] bw obtain es where es: "log w2 = log w1 @ es"
    and ok: "(\<exists>a. r = Inr a) \<longrightarrow> calls_returned x (log w1) es"
    by (auto simp: propagates_def dest: spec [of _ w1])
  have res: "TemporaryDirectory block w
          = (r, w2\<lparr>tmp_live := removeAll d (tmp_live w2),
                   log := log w2 @ [Os (Rmtree_tmp d)]\<rparr>)"
    using bw by (simp add: TemporaryDirectory_def Let_def d_def [symmetric] w1_def [symmetric])
  have l: "log (snd (TemporaryDirectory block w))
          = log w @ (Os (Mkdtemp d) # es @ [Os (Rmtree_tmp d)])"
    using es by (simp add: res w1_def)
  have "(\<exists>a. fst (TemporaryDirectory block w) = Inr a)
          \<longrightarrow> calls_returned x (log w) (Os (Mkdtemp d) # es @ [Os (Rmtree_tmp d)])"
    using ok by (auto simp: res w1_def calls_returned_append)
  with l show "\<exists>es. log (snd (TemporaryDirectory block w)) = log w @ es \<and>
          ((\<exists>r. fst (TemporaryDirectory block w) = Inr r) \<longrightarrow> calls_returned x (log w) es)"
    by blast
qed

lemma propagates_environment_append [intro!]:
  assumes b: "propagates x block"
  shows "propagates x (environment_append env block)"
  unfolding propagates_def
proof
  fix w :: world
  define w1 where "w1 = w\<lparr>log := log w @ [Os (Environ_append env)]\<rparr>"
  obtain r w2 where bw: "block w1 = (r, w2)" by (cases "block w1")
  from b bw obtain es where es: "log w2 = log w1 @ es"
    and ok: "(\<exists>a. r = Inr a) \<longrightarrow> calls_returned x (log w1) es"
    by (auto simp: propagates_def dest: spec [of _ w1])
  have res: "environment_append env block w
          = (r, w2\<lparr>log := log w2 @ [Os Environ_restore]\<rparr>)"
    using bw by (simp add: environment_append_def Let_def w1_def [symmetric])
  have l: "log (snd (environment_append env block w))
          = log w @ (Os (Environ_append env) # es @ [Os Environ_restore])"
    using es by (simp add: res w1_def)
  have "(\<exists>a. fst (environment_append env block w) = Inr a)
          \<longrightarrow> calls_returned x (log w) (Os (Environ_append env) # es @ [Os Environ_restore])"
    using ok by (auto simp: res w1_def calls_returned_append)
  with l show "\<exists>es. log (snd (environment_append env block w)) = log w @ es \<and>
          ((\<exists>r. fst (environment_append env block w) = Inr r)
             \<longrightarrow> calls_returned x (log w) es)"
    by blast
qed

lemma propagates_setup_remotes: "propagates x (setup_remotes x)"
  by (auto simp: setup_remotes_def get_remotes_def remote_rename_def remote_add_def
      split: option.split)

lemma propagates_login: "propagates x (login x username)"
  by (auto simp: login_def login_body_def obtain_token_def input_line_def getpass_def
      requests_get_def raise_for_status_def Let_def split: option.split prod.split)

lemma propagates_check_long_paths [intro!]: "propagates x (check_long_paths x)"
  by (auto simp: check_long_paths_def split: option.split sum.split)

lemma propagates_upload_dependencies_internal [intro!]:
  "propagates x (upload_dependencies_internal x conan_api)"
  by (auto simp: upload_dependencies_internal_def stable_non_local_dependencies_def
      dependencies_def promote_dependency_def Let_def)

lemma propagates_get_builder [intro!]: "propagates x (get_builder x force_upload username)"
  by (auto simp: get_builder_def)

lemma propagates_install_all_configurations [intro!]:
  "propagates x (install_all_configurations x)"
  by (auto simp: install_all_configurations_def install_configuration_def Let_def
      conan_redirect_removed_def redirect_removed_enter_def redirect_removed_exit_def
      remote_remove_def remote_add_def)

lemma propagates_copy_dependencies: "propagates x (copy_dependencies x)"
  by (auto simp: copy_dependencies_def temporary_user_home_api_def remove_remote_refs_def
      Let_def)

lemma propagates_package: "propagates x (package x username force_upload)"
  by (auto simp: package_def tools_deps_env_info_def Let_def split: json_file.split)

lemma propagates_build: "propagates x (build x c config parallel_flag)"
  by (auto simp: build_def ctx_run_def Let_def)


section \<open>Errors: tasks that cannot return\<close>

lemma aborts_raise [intro!]: "aborts (raise e)"
  by (simp add: aborts_def raise_def)

lemma aborts_and_then_first: "aborts p \<Longrightarrow> aborts (and_then p f)"
  unfolding aborts_def
proof
  fix w :: world
  assume a: "\<forall>w. \<exists>e. fst (p w) = Inl e"
  then obtain e where "fst (p w) = Inl e" by blast
  then show "\<exists>e. fst (and_then p f w) = Inl e"
    by (cases "p w") (auto simp: and_then_def)
qed

lemma aborts_and_then_second: "(\<And>a. aborts (f a)) \<Longrightarrow> aborts (and_then p f)"
  unfolding aborts_def
proof
  fix w :: world
  assume a: "\<And>a. \<forall>w. \<exists>e. fst (f a w) = Inl e"
  obtain r w' where pw: "p w = (r, w')" by (cases "p w")
  show "\<exists>e. fst (and_then p f w) = Inl e"
  proof (cases r)
    case (Inl e)
    with pw show ?thesis by (simp add: and_then_def)
  next
    case (Inr v)
    with pw a [of v] show ?thesis by (simp add: and_then_def)
  qed
qed

lemma aborts_then_do_first: "aborts p \<Longrightarrow> aborts (then_do p q)"
  unfolding then_do_def by (rule aborts_and_then_first)

lemma aborts_then_do_second: "aborts q \<Longrightarrow> aborts (then_do p q)"
  unfolding then_do_def by (rule aborts_and_then_second)

lemma aborts_TemporaryDirectory:
  "(\<And>tmpdir. aborts (block tmpdir)) \<Longrightarrow> aborts (TemporaryDirectory block)"
  by (auto simp: aborts_def TemporaryDirectory_def Let_def split: prod.split)
     (metis fst_conv)

lemma aborts_environment_append: "aborts block \<Longrightarrow> aborts (environment_append env block)"
  by (auto simp: aborts_def environment_append_def Let_def split: prod.split)
     (metis fst_conv)

lemma aborts_check_long_paths:
  "sys_platform x = ''win32'' \<Longrightarrow> winreg_open x FILESYSTEM_KEY = None
     \<Longrightarrow> aborts (check_long_paths x)"
  by (simp add: check_long_paths_def aborts_raise)

lemma aborts_copy_dependencies:
  assumes "sys_platform x = ''win32''" and "winreg_open x FILESYSTEM_KEY = None"
  shows "aborts (copy_dependencies x)"
  unfolding copy_dependencies_def temporary_user_home_api_def Let_def
  by (intro aborts_TemporaryDirectory aborts_then_do_second aborts_environment_append
        aborts_then_do_first aborts_check_long_paths assms)

lemma aborts_tools_deps_env_info:
  "buildinfo_json x = Json_missing \<Longrightarrow> aborts (tools_deps_env_info x)"
  unfolding tools_deps_env_info_def
  by (intro aborts_then_do_second) (simp add: aborts_raise)

lemma aborts_package:
  assumes "buildinfo_json x = Json_missing"
  shows "aborts (package x username force_upload)"
  unfolding package_def Let_def
  by (intro aborts_then_do_second aborts_and_then_first aborts_tools_deps_env_info assms)

lemma aborts_obtain_token:
  assumes "400 \<le> fst (login_response x username) \<and> fst (login_response x username) < 600"
  shows "aborts (obtain_token x username)"
  using assms
  by (cases username)
     (auto simp: aborts_def obtain_token_def input_line_def getpass_def requests_get_def
       raise_for_status_def then_do_def and_then_def emit_def call_def
       succeed_def raise_def Let_def login_response_def effective_username_def
       exchange_url_def
       split: option.splits)

lemma login_loop_aborts:
  assumes bad: "400 \<le> fst (login_response x username) \<and>
                fst (login_response x username) < 600"
    and "filter (needs_login x) rl \<noteq> []"
  shows "\<exists>e. fst (for_loop rl (username, None) (login_body x) w) = Inl e"
  using assms(2)
proof (induction rl)
  case Nil
  then show ?case by simp
next
  case (Cons r rl)
  show ?case
  proof (cases "needs_login x r")
    case True
    have "aborts (login_body x (username, None) r)"
      unfolding login_body_prompt [OF True]
      by (rule aborts_and_then_first) (rule aborts_obtain_token [OF bad])
    then have "aborts (for_loop (r # rl) (username, None) (login_body x))"
      unfolding for_loop.simps by (rule aborts_and_then_first)
    then show ?thesis
      by (simp add: aborts_def)
  next
    case False
    with Cons.prems have "filter (needs_login x) rl \<noteq> []" by simp
    with False Cons.IH show ?thesis
      by (simp add: login_body_skip)
  qed
qed

lemma login_aborts:
  assumes "400 \<le> fst (login_response x username) \<and> fst (login_response x username) < 600"
    and "filter (needs_login x) (registry w) \<noteq> []"
  shows "\<exists>e. fst (login x username w) = Inl e"
proof -
  let ?w = "w\<lparr>log := log w @ [Api Factory]\<rparr>"
  obtain res where c: "call x (Api Factory) w = (res, ?w)"
    using call_any by blast
  from login_loop_aborts [OF assms, of ?w] obtain e where
    "fst (for_loop (registry w) (username, None) (login_body x) ?w) = Inl e"
    by blast
  with c show ?thesis
    by (cases res; cases "for_loop (registry w) (username, None) (login_body x) ?w")
       (auto simp: login_def then_do_def and_then_def remote_list_def)
qed

lemma package_without_buildinfo:
  assumes "calls_return x" and "buildinfo_json x = Json_missing"
  shows "package x username force_upload w =
     (Inl FileNotFoundError,
      w\<lparr>log := log w @
         [Os (Environ_set ''CONAN_PIP_USE_SUDO'' ''False''),
          Os (Environ_set ''CONAN_NON_INTERACTIVE'' ''True''),
          Api (Multi_packager username (\<not> force_upload)
                 (DL_ARTIFACTORY @ ''/api/conan/conan-local'', True, ''conan-local'')),
          Api Add_common_builds,
          Api Factory,
          Api (Install_path ''build_tools'' ''build_tools/build'')]\<rparr>)"
  by (simp add: package_def get_builder_def dict_get_def remotes_def UPLOAD_REMOTE_def
      tools_deps_env_info_def then_do_def and_then_def call_quiet [OF assms(1)] assms(2)
      succeed_def raise_def Let_def)


lemma propagates_returned:
  "propagates x p \<Longrightarrow> fst (p w) = Inr r \<Longrightarrow> log (snd (p w)) = log w @ es
     \<Longrightarrow> calls_returned x (log w) es"
  by (auto simp: propagates_def dest!: spec [of _ w])

section \<open>Errors: the tasks\<close>

lemma login_refused:
  "calls_return x \<Longrightarrow> filter (needs_login x) (registry w) \<noteq> [] \<Longrightarrow>
   400 \<le> fst (login_response x username) \<Longrightarrow> fst (login_response x username) < 600 \<Longrightarrow>
   login x username w
     = (Inl HTTPError, w\<lparr>log := log w @ [Api Factory] @ prompt_events x username\<rparr>)"
  using login_quiet [of x w username] by auto

lemma prompt_events_no_authenticate:
  "filter is_authenticate ([Api Factory] @ prompt_events x username) = []"
  by (cases username) (simp_all add: prompt_events_def is_authenticate_def)

lemma login_never_returns:
  "filter (needs_login x) (registry w) \<noteq> [] \<Longrightarrow>
   400 \<le> fst (login_response x username) \<Longrightarrow> fst (login_response x username) < 600 \<Longrightarrow>
   fst (login x username w) \<noteq> Inr ()"
  using login_aborts [of x username w] by auto

lemma copy_dependencies_never_returns:
  "sys_platform x = ''win32'' \<Longrightarrow> winreg_open x FILESYSTEM_KEY = None
     \<Longrightarrow> fst (copy_dependencies x w) \<noteq> Inr ()"
  using aborts_copy_dependencies [of x] by (auto simp: aborts_def dest!: spec [of _ w])

lemma check_long_paths_no_value:
  "sys_platform x = ''win32'' \<Longrightarrow> winreg_open x FILESYSTEM_KEY = Some key \<Longrightarrow>
   key ''LongPathsEnabled'' = Inl FileNotFoundError \<Longrightarrow>
   check_long_paths x w
     = (Inr (),
        w\<lparr>log := log w @
           [Out Warn ''It is strongly recommended to enable long paths in Windows'',
            Out Warn ''See the LongPathsEnabled.reg file in the tasks directory'']\<rparr>)"
  by (simp add: check_long_paths_def then_do_def and_then_def emit_def)

lemma check_long_paths_other_error:
  "sys_platform x = ''win32'' \<Longrightarrow> winreg_open x FILESYSTEM_KEY = Some key \<Longrightarrow>
   key ''LongPathsEnabled'' = Inl e \<Longrightarrow> e \<noteq> FileNotFoundError \<Longrightarrow>
   check_long_paths x w = (Inl e, w)"
  by (simp add: check_long_paths_def raise_run)

lemma cmake_generator_no_file:
  "file_lines x (os_path_join x ''build'' ''CMakeCache.txt'') = None
     \<Longrightarrow> cmake_generator x = Inl FileNotFoundError"
  by (simp add: cmake_generator_def)

lemma build_no_file:
  "file_lines x (os_path_join x ''build'' ''CMakeCache.txt'') = None
     \<Longrightarrow> build x c config True w = (Inl FileNotFoundError, w)"
  by (rule build_raises_early) (rule cmake_generator_no_file)

lemma tools_deps_env_info_no_file:
  assumes "calls_return x" and "buildinfo_json x = Json_missing"
  shows "fst (tools_deps_env_info x w) = Inl FileNotFoundError"
  by (simp add: tools_deps_env_info_def then_do_def and_then_def call_quiet [OF assms(1)]
      assms(2) raise_def)

lemma package_never_returns:
  "buildinfo_json x = Json_missing \<Longrightarrow> fst (package x username force_upload w) \<noteq> Inr ()"
  using aborts_package [of x username force_upload]
  by (auto simp: aborts_def dest!: spec [of _ w])

lemma upload_dependencies_returned:
  "fst (upload_dependencies x w) = Inr () \<Longrightarrow>
   log (snd (upload_dependencies x w)) = log w @ es \<Longrightarrow> calls_returned x (log w) es"
  unfolding upload_dependencies_def
  by (rule propagates_returned [OF propagates_upload_dependencies_internal])

text \<open>
  C7. Errors are propagated, not recovered.
  \<^item> When the exchange of \<open>login\<close> answers with a status from 400 to 599, the task
    raises: \<open>HTTPError\<close> right after the request, with no remote authenticated, when
    the calls before it return, and some exception whatever the calls do.
  \<^item> A missing registry key raises in \<open>check_long_paths\<close>, and \<open>copy_dependencies\<close>
    raises with it.
  \<^item> A missing cache file raises in \<open>cmake_generator\<close>, and \<open>build\<close> with
    \<open>parallel\<close> raises with it before any command runs. A missing
    \<open>conanbuildinfo.json\<close> raises in \<open>tools_deps_env_info\<close>, and \<open>package\<close> raises
    with it: nothing is installed for a configuration and the builder does not run.
  \<^item> No task swallows the exception of a call: when \<open>setup_remotes\<close>, \<open>login\<close>,
    \<open>upload_dependencies\<close>, \<open>copy_dependencies\<close>, \<open>package\<close> or \<open>build\<close>
    returns, every call it made into the package manager, the operating system, the
    console or the network has returned.
  \<^item> The one error that is caught: when the key exists and the value
    \<open>LongPathsEnabled\<close> does not, long paths count as disabled, two warnings are
    printed and the task goes on; any other error of the query is raised.
\<close>

theorem errors_propagate:
  "(calls_return x \<and> filter (needs_login x) (registry w) \<noteq> [] \<and>
    400 \<le> fst (login_response x username) \<and> fst (login_response x username) < 600
      \<longrightarrow> login x username w
            = (Inl HTTPError, w\<lparr>log := log w @ [Api Factory] @ prompt_events x username\<rparr>) \<and>
          filter is_authenticate ([Api Factory] @ prompt_events x username) = []) \<and>
   (sys_platform x = ''win32'' \<and> winreg_open x FILESYSTEM_KEY = None
      \<longrightarrow> check_long_paths x w = (Inl FileNotFoundError, w)) \<and>
   (calls_return x \<and> sys_platform x = ''win32'' \<and> winreg_open x FILESYSTEM_KEY = None
      \<longrightarrow> fst (copy_dependencies x w) = Inl FileNotFoundError) \<and>
   (\<forall>key. sys_platform x = ''win32'' \<and> winreg_open x FILESYSTEM_KEY = Some key \<and>
      key ''LongPathsEnabled'' = Inl FileNotFoundError
      \<longrightarrow> check_long_paths x w
            = (Inr (),
               w\<lparr>log := log w @
                  [Out Warn ''It is strongly recommended to enable long paths in Windows'',
                   Out Warn ''See the LongPathsEnabled.reg file in the tasks directory'']\<rparr>)) \<and>
   (\<forall>key e. sys_platform x = ''win32'' \<and> winreg_open x FILESYSTEM_KEY = Some key \<and>
      key ''LongPathsEnabled'' = Inl e \<and> e \<noteq> FileNotFoundError
      \<longrightarrow> check_long_paths x w = (Inl e, w)) \<and>
   (file_lines x (os_path_join x ''build'' ''CMakeCache.txt'') = None
      \<longrightarrow> cmake_generator x = Inl FileNotFoundError) \<and>
   (calls_return x \<and> buildinfo_json x = Json_missing
      \<longrightarrow> fst (tools_deps_env_info x w) = Inl FileNotFoundError) \<and>
   (filter (needs_login x) (registry w) \<noteq> [] \<and>
    400 \<le> fst (login_response x username) \<and> fst (login_response x username) < 600
      \<longrightarrow> fst (login x username w) \<noteq> Inr ()) \<and>
   (sys_platform x = ''win32'' \<and> winreg_open x FILESYSTEM_KEY = None
      \<longrightarrow> fst (copy_dependencies x w) \<noteq> Inr ()) \<and>
   (file_lines x (os_path_join x ''build'' ''CMakeCache.txt'') = None
      \<longrightarrow> build x c config True w = (Inl FileNotFoundError, w)) \<and>
   (buildinfo_json x = Json_missing
      \<longrightarrow> fst (package x user force_upload w) \<noteq> Inr ()) \<and>
   (calls_return x \<and> buildinfo_json x = Json_missing
      \<longrightarrow> package x user force_upload w =
           (Inl FileNotFoundError,
            w\<lparr>log := log w @
               [Os (Environ_set ''CONAN_PIP_USE_SUDO'' ''False''),
                Os (Environ_set ''CONAN_NON_INTERACTIVE'' ''True''),
                Api (Multi_packager user (\<not> force_upload)
                       (DL_ARTIFACTORY @ ''/api/conan/conan-local'', True, ''conan-local'')),
                Api Add_common_builds,
                Api Factory,
                Api (Install_path ''build_tools'' ''build_tools/build'')]\<rparr>)) \<and>
   (\<forall>es. fst (setup_remotes x w) = Inr () \<and> log (snd (setup_remotes x w)) = log w @ es
      \<longrightarrow> calls_returned x (log w) es) \<and>
   (\<forall>es. fst (login x username w) = Inr () \<and> log (snd (login x username w)) = log w @ es
      \<longrightarrow> calls_returned x (log w) es) \<and>
   (\<forall>es. fst (upload_dependencies x w) = Inr () \<and>
      log (snd (upload_dependencies x w)) = log w @ es
      \<longrightarrow> calls_returned x (log w) es) \<and>
   (\<forall>es. fst (copy_dependencies x w) = Inr () \<and>
      log (snd (copy_dependencies x w)) = log w @ es
      \<longrightarrow> calls_returned x (log w) es) \<and>
   (\<forall>es. fst (package x user force_upload w) = Inr () \<and>
      log (snd (package x user force_upload w)) = log w @ es
      \<longrightarrow> calls_returned x (log w) es) \<and>
   (\<forall>es. fst (build x c config parallel_flag w) = Inr () \<and>
      log (snd (build x c config parallel_flag w)) = log w @ es
      \<longrightarrow> calls_returned x (log w) es)"
  by (intro conjI allI impI; (elim conjE)?)
     (rule login_refused prompt_events_no_authenticate check_long_paths_no_key
        copy_dependencies_no_key check_long_paths_no_value check_long_paths_other_error
        cmake_generator_no_file tools_deps_env_info_no_file login_never_returns
        copy_dependencies_never_returns build_no_file package_never_returns
        package_without_buildinfo
        propagates_returned [OF propagates_setup_remotes]
        propagates_returned [OF propagates_login]
        upload_dependencies_returned
        propagates_returned [OF propagates_copy_dependencies]
        propagates_returned [OF propagates_package]
        propagates_returned [OF propagates_build];
      assumption)+

theorem errors_propagate_witness:
  "login refused None start
     = (Inl HTTPError, start\<lparr>log := [Api Factory] @ prompt_events refused None\<rparr>) \<and>
   check_long_paths windows_without_key start = (Inl FileNotFoundError, start) \<and>
   fst (copy_dependencies windows_without_key start) = Inl FileNotFoundError \<and>
   check_long_paths windows_without_value start
     = (Inr (),
        start\<lparr>log :=
          [Out Warn ''It is strongly recommended to enable long paths in Windows'',
           Out Warn ''See the LongPathsEnabled.reg file in the tasks directory'']\<rparr>) \<and>
   cmake_generator quiet = Inl FileNotFoundError \<and>
   fst (tools_deps_env_info quiet start) = Inl FileNotFoundError \<and>
   build quiet \<lparr>command_prefixes = [], command_cwds = []\<rparr> None True start
     = (Inl FileNotFoundError, start) \<and>
   package quiet ''kam'' False start
     = (Inl FileNotFoundError,
        start\<lparr>log :=
          [Os (Environ_set ''CONAN_PIP_USE_SUDO'' ''False''),
           Os (Environ_set ''CONAN_NON_INTERACTIVE'' ''True''),
           Api (Multi_packager ''kam'' True
                  (DL_ARTIFACTORY @ ''/api/conan/conan-local'', True, ''conan-local'')),
           Api Add_common_builds,
           Api Factory,
           Api (Install_path ''build_tools'' ''build_tools/build'')]\<rparr>) \<and>
   fst (login quiet None start) = Inr () \<and>
   calls_returned quiet [] (log (snd (login quiet None start))) \<and>
   \<not> calls_returned failing_install [] (log (snd (copy_dependencies failing_install start))) \<and>
   fst (copy_dependencies failing_install start) \<noteq> Inr ()"
proof -
  have c: "calls_return refused" "calls_return quiet" "calls_return windows_without_key"
    by (simp_all add: calls_return_def refused_def quiet_def windows_without_key_def)
  have n: "filter (needs_login refused) (registry start) \<noteq> []"
    by code_simp
  have r: "fst (login_response refused None) = 401"
    by (simp add: login_response_def refused_def quiet_def)
  have l: "log start = []"
    by (simp add: start_def)
  have k: "sys_platform windows_without_key = ''win32''"
    "winreg_open windows_without_key FILESYSTEM_KEY = None"
    by (simp_all add: windows_without_key_def quiet_def)
  have v: "sys_platform windows_without_value = ''win32''"
    "winreg_open windows_without_value FILESYSTEM_KEY = Some (\<lambda>v. Inl FileNotFoundError)"
    by (simp_all add: windows_without_value_def quiet_def)
  have f: "file_lines quiet (os_path_join quiet ''build'' ''CMakeCache.txt'') = None"
    "buildinfo_json quiet = Json_missing"
    by (simp_all add: quiet_def)
  have g: "fst (login quiet None start) = Inr ()"
    by code_simp
  have h: "\<not> calls_returned failing_install []
               (log (snd (copy_dependencies failing_install start)))"
    by code_simp
  from errors_propagate [where x = refused and w = start and username = None] c n r l
  have 1: "login refused None start
     = (Inl HTTPError, start\<lparr>log := [Api Factory] @ prompt_events refused None\<rparr>)"
    by simp
  from errors_propagate [where x = windows_without_key and w = start and username = None] c k
  have 2: "check_long_paths windows_without_key start = (Inl FileNotFoundError, start)"
    "fst (copy_dependencies windows_without_key start) = Inl FileNotFoundError"
    by simp_all
  from errors_propagate [where x = windows_without_value and w = start and username = None]
    v l
  have 3: "check_long_paths windows_without_value start
     = (Inr (),
        start\<lparr>log :=
          [Out Warn ''It is strongly recommended to enable long paths in Windows'',
           Out Warn ''See the LongPathsEnabled.reg file in the tasks directory'']\<rparr>)"
    by simp
  note q = errors_propagate
             [where x = quiet and w = start and username = None and user = "''kam''"
                and force_upload = False
                and c = "\<lparr>command_prefixes = [], command_cwds = []\<rparr>" and config = None]
  from q c f
  have 4: "cmake_generator quiet = Inl FileNotFoundError"
    "fst (tools_deps_env_info quiet start) = Inl FileNotFoundError"
    "build quiet \<lparr>command_prefixes = [], command_cwds = []\<rparr> None True start
       = (Inl FileNotFoundError, start)"
    by simp_all
  from q c f l
  have 5: "package quiet ''kam'' False start
     = (Inl FileNotFoundError,
        start\<lparr>log :=
          [Os (Environ_set ''CONAN_PIP_USE_SUDO'' ''False''),
           Os (Environ_set ''CONAN_NON_INTERACTIVE'' ''True''),
           Api (Multi_packager ''kam'' True
                  (DL_ARTIFACTORY @ ''/api/conan/conan-local'', True, ''conan-local'')),
           Api Add_common_builds,
           Api Factory,
           Api (Install_path ''build_tools'' ''build_tools/build'')]\<rparr>)"
    by simp
  from q g l
  have 6: "calls_returned quiet [] (log (snd (login quiet None start)))"
    by simp
  from errors_propagate [where x = failing_install and w = start] h l
  have 7: "fst (copy_dependencies failing_install start) \<noteq> Inr ()"
    by auto
  from 1 2 3 4 5 6 7 g h show ?thesis
    by simp
qed

section \<open>Dependency promotion: properties\<close>

lemma for_each_log:
  assumes "\<And>a w. body a w = (Inr (), w\<lparr>log := log w @ f a\<rparr>)"
  shows "for_each as body w = (Inr (), w\<lparr>log := log w @ concat (map f as)\<rparr>)"
  by (induction as arbitrary: w) (simp_all add: succeed_def then_do_def and_then_def assms)

lemma concat_map_unless:
  "concat (map (\<lambda>a. if P a then [] else f a) as) = concat (map f (filter (\<lambda>a. \<not> P a) as))"
  by (induction as) simp_all

lemma stable_non_local_dependencies_quiet:
  assumes "calls_return x"
  shows "stable_non_local_dependencies x w =
     (Inr (filter (stable_foreign x) (resolved_dependencies x)),
      w\<lparr>log := log w @ [Api (Graph_info ''.'' ''default'' [''never''])]\<rparr>)"
proof -
  have "(\<lambda>d. \<not> (cf_user d = ''datalogics'' \<or> cf_user d = os_user x) \<and>
              \<not> (cf_channel d \<noteq> ''stable'')) = stable_foreign x"
    by (auto simp: stable_foreign_def fun_eq_iff)
  then show ?thesis
    by (simp add: stable_non_local_dependencies_def dependencies_def then_do_def and_then_def
        call_quiet [OF assms] succeed_def Let_def resolved_dependencies_def)
qed

lemma promote_dependency_quiet:
  assumes "calls_return x"
  shows "promote_dependency x remote_refs d w
        = (Inr (), w\<lparr>log := log w @ (if cf_alias d \<noteq> None then []
                                       else promotion_calls remote_refs d)\<rparr>)"
  by (simp add: promote_dependency_def then_do_def and_then_def call_quiet [OF assms]
      succeed_def Let_def
      promotion_calls_def datalogics_reference_def str_reference_def STABLE_USERNAME_def
      UPLOAD_DEPENDENCIES_REMOTE_def REDIRECT_REMOTE_def)

lemma upload_dependencies_internal_quiet:
  assumes "calls_return x"
  shows "upload_dependencies_internal x conan_api w =
     (Inr (),
      w\<lparr>log := log w @ (if conan_api = None then [Api Factory] else [])
             @ [Api (Graph_info ''.'' ''default'' [''never''])]
             @ concat (map (promotion_calls
                              (ref_table x
                                 (log w @ (if conan_api = None then [Api Factory] else []))))
                 (filter (\<lambda>d. \<not> cf_alias d \<noteq> None)
                    (filter (stable_foreign x) (resolved_dependencies x))))\<rparr>)"
proof -
  define pre where "pre = (if conan_api = None then [Api Factory] else [])"
  define w0 where "w0 = w\<lparr>log := log w @ pre\<rparr>"
  define w1 where "w1 = w0\<lparr>log := log w0 @ [Api (Graph_info ''.'' ''default'' [''never''])]\<rparr>"
  define deps where "deps = filter (stable_foreign x) (resolved_dependencies x)"
  have 1: "(if conan_api = None then call x (Api Factory) else succeed ()) w = (Inr (), w0)"
    by (simp add: w0_def pre_def call_quiet [OF assms] succeed_def)
  have 2: "remote_list_ref x w0 = (Inr (ref_table x (log w0)), w0)"
    by (simp add: remote_list_ref_def)
  have 3: "stable_non_local_dependencies x w0 = (Inr deps, w1)"
    by (simp add: stable_non_local_dependencies_quiet [OF assms] deps_def w1_def)
  note 4 = for_each_log
             [of "promote_dependency x (ref_table x (log w0))", OF promote_dependency_quiet [OF assms],
              where as = deps and w = w1]
  have "upload_dependencies_internal x conan_api w =
          (Inr (), w1\<lparr>log := log w1 @ concat (map (\<lambda>d. if cf_alias d \<noteq> None then []
                            else promotion_calls (ref_table x (log w0)) d) deps)\<rparr>)"
    unfolding upload_dependencies_internal_def then_do_def and_then_def
    by (simp only: 1 2 3 4 prod.case sum.case)
  then show ?thesis
    by (simp add: concat_map_unless w1_def w0_def pre_def deps_def)
qed


text \<open>
  C1, as amended. For every resolved dependency of the project whose channel is
  \<open>stable\<close>, whose user is neither \<open>datalogics\<close> nor the local user, and whose recipe
  is not an alias (has no \<open>alias\<close> attribute), \<open>upload_dependencies\<close> copies the
  package under \<open>datalogics\<close>, uploads the copy to \<open>conan-ext\<close>, points the original
  reference at \<open>conan-redirect\<close> if the package manager has a remote for it, removes
  the original reference from the local cache, exports an alias from the original
  reference to the new one and uploads it to \<open>conan-redirect\<close>: these calls, in this
  order, one dependency after the other, and no other call but the making of the API
  object and the resolution of the graph.
\<close>

theorem upload_dependencies_promotes:
  "calls_return x \<longrightarrow>
     upload_dependencies x w =
       (Inr (),
        w\<lparr>log := log w @ [Api Factory, Api (Graph_info ''.'' ''default'' [''never''])]
               @ concat (map (promotion_calls (ref_table x (log w @ [Api Factory])))
                   (filter (\<lambda>d. stable_foreign x d \<and> cf_alias d = None)
                      (resolved_dependencies x)))\<rparr>) \<and>
     (\<forall>d \<in> set (resolved_dependencies x). stable_foreign x d \<and> cf_alias d = None \<longrightarrow>
        set (promotion_calls (ref_table x (log w @ [Api Factory])) d)
          \<subseteq> set (log (snd (upload_dependencies x w))))"
proof
  assume c: "calls_return x"
  have r: "upload_dependencies x w =
       (Inr (),
        w\<lparr>log := log w @ [Api Factory, Api (Graph_info ''.'' ''default'' [''never''])]
               @ concat (map (promotion_calls (ref_table x (log w @ [Api Factory])))
                   (filter (\<lambda>d. stable_foreign x d \<and> cf_alias d = None)
                      (resolved_dependencies x)))\<rparr>)"
    by (simp add: upload_dependencies_def upload_dependencies_internal_quiet [OF c]
        conj_commute)
  have "\<forall>d \<in> set (resolved_dependencies x). stable_foreign x d \<and> cf_alias d = None \<longrightarrow>
        set (promotion_calls (ref_table x (log w @ [Api Factory])) d)
          \<subseteq> set (log (snd (upload_dependencies x w)))"
    unfolding r by auto
  with r show "upload_dependencies x w =
       (Inr (),
        w\<lparr>log := log w @ [Api Factory, Api (Graph_info ''.'' ''default'' [''never''])]
               @ concat (map (promotion_calls (ref_table x (log w @ [Api Factory])))
                   (filter (\<lambda>d. stable_foreign x d \<and> cf_alias d = None)
                      (resolved_dependencies x)))\<rparr>) \<and>
     (\<forall>d \<in> set (resolved_dependencies x). stable_foreign x d \<and> cf_alias d = None \<longrightarrow>
        set (promotion_calls (ref_table x (log w @ [Api Factory])) d)
          \<subseteq> set (log (snd (upload_dependencies x w))))"
    by blast
qed

theorem upload_dependencies_promotes_witness:
  "zlib \<in> set (resolved_dependencies one_dependency) \<and>
   stable_foreign one_dependency zlib \<and> cf_alias zlib = None \<and>
   upload_dependencies one_dependency start =
     (Inr (),
      start\<lparr>log :=
        [Api Factory, Api (Graph_info ''.'' ''default'' [''never'']),
         Api (Copy ''zlib/1.2.11@conan/stable'' ''datalogics/stable'' True True),
         Api (Upload ''zlib/1.2.11@datalogics/stable'' ''conan-ext'' True True True),
         Api (Remove ''zlib/1.2.11@conan/stable'' True),
         Api (Export_alias ''zlib/1.2.11@conan/stable'' ''zlib/1.2.11@datalogics/stable''),
         Api (Upload ''zlib/1.2.11@conan/stable'' ''conan-redirect'' True False False)]\<rparr>)"
proof -
  have c: "calls_return one_dependency"
    by (simp add: calls_return_def one_dependency_def quiet_def)
  have d: "resolved_dependencies one_dependency = [zlib]"
    by code_simp
  have s: "stable_foreign one_dependency zlib" "cf_alias zlib = None"
    by code_simp+
  have t: "ref_table one_dependency (log start @ [Api Factory]) = []"
    by (simp add: one_dependency_def quiet_def)
  have p: "promotion_calls [] zlib =
        [Api (Copy ''zlib/1.2.11@conan/stable'' ''datalogics/stable'' True True),
         Api (Upload ''zlib/1.2.11@datalogics/stable'' ''conan-ext'' True True True),
         Api (Remove ''zlib/1.2.11@conan/stable'' True),
         Api (Export_alias ''zlib/1.2.11@conan/stable'' ''zlib/1.2.11@datalogics/stable''),
         Api (Upload ''zlib/1.2.11@conan/stable'' ''conan-redirect'' True False False)]"
    by code_simp
  have l: "log start = []"
    by (simp add: start_def)
  from upload_dependencies_promotes [of one_dependency start] c d s t p l show ?thesis
    by simp
qed

text \<open>
  C1, as first stated, speaks of every stable dependency of another user. A dependency
  whose recipe is an alias is skipped: nothing is copied or uploaded for it.
\<close>

theorem upload_dependencies_alias_counterexample:
  "zlib\<lparr>cf_alias := Some ''zlib/1.2.11@conan/testing''\<rparr>
      \<in> set (resolved_dependencies alias_dependency) \<and>
   stable_foreign alias_dependency (zlib\<lparr>cf_alias := Some ''zlib/1.2.11@conan/testing''\<rparr>) \<and>
   upload_dependencies alias_dependency start =
     (Inr (),
      start\<lparr>log := [Api Factory, Api (Graph_info ''.'' ''default'' [''never''])]\<rparr>) \<and>
   Api (Copy ''zlib/1.2.11@conan/stable'' ''datalogics/stable'' True True)
      \<notin> set (log (snd (upload_dependencies alias_dependency start)))"
  by code_simp

section \<open>The order of the pipeline: properties\<close>

lemma appends_succeed: "P [] \<Longrightarrow> appends P (succeed a)"
  by (simp add: appends_def succeed_def)

lemma appends_raise: "P [] \<Longrightarrow> appends P (raise e)"
  by (simp add: appends_def raise_def)

lemma appends_remote_list: "P [] \<Longrightarrow> appends P remote_list"
  by (simp add: appends_def remote_list_def)

lemma appends_remote_list_ref: "P [] \<Longrightarrow> appends P (remote_list_ref x)"
  by (simp add: appends_def remote_list_ref_def)

lemma appends_dict_get: "P [] \<Longrightarrow> appends P (dict_get d k)"
  by (simp add: dict_get_def appends_succeed appends_raise split: option.split)

lemma appends_emit: "P [e] \<Longrightarrow> appends P (emit e)"
  by (simp add: appends_def emit_def)

lemma appends_call: "P [e] \<Longrightarrow> appends P (call x e)"
  by (simp add: appends_def call_def split: option.split)

lemma appends_registry_call: "P [e] \<Longrightarrow> appends P (registry_call e f)"
  by (simp add: appends_def registry_call_def split: sum.split)

lemma appends_and_then:
  assumes p: "appends P p" and f: "\<And>a. appends Q (f a)"
    and one: "\<And>es. P es \<Longrightarrow> R es"
    and two: "\<And>es es'. P es \<Longrightarrow> Q es' \<Longrightarrow> R (es @ es')"
  shows "appends R (and_then p f)"
  unfolding appends_def
proof
  fix w :: world
  obtain r w' where pw: "p w = (r, w')" by (cases "p w")
  from p pw obtain es where es: "log w' = log w @ es" and P: "P es"
    by (auto simp: appends_def dest: spec [of _ w])
  show "\<exists>es. log (snd (and_then p f w)) = log w @ es \<and> R es"
  proof (cases r)
    case (Inl e)
    with pw es one [OF P] show ?thesis
      by (auto simp: and_then_def)
  next
    case (Inr a)
    from f [of a] obtain es' where "log (snd (f a w')) = log w' @ es'" and "Q es'"
      by (auto simp: appends_def dest: spec [of _ w'])
    with Inr pw es two [OF P] show ?thesis
      by (auto simp: and_then_def)
  qed
qed

lemma appends_then_do:
  assumes "appends P p" and "appends Q q"
    and "\<And>es. P es \<Longrightarrow> R es"
    and "\<And>es es'. P es \<Longrightarrow> Q es' \<Longrightarrow> R (es @ es')"
  shows "appends R (then_do p q)"
  unfolding then_do_def using assms by (rule appends_and_then)

lemma appends_for_each:
  assumes "P []" and "\<And>a. appends P (body a)"
    and "\<And>es es'. P es \<Longrightarrow> P es' \<Longrightarrow> P (es @ es')"
  shows "appends P (for_each as body)"
proof (induction as)
  case Nil
  from assms(1) show ?case by (simp add: appends_succeed)
next
  case (Cons a as)
  show ?case
    unfolding for_each.simps
    by (rule appends_then_do [OF assms(2) Cons.IH]) (auto intro: assms(3))
qed

lemma appends_TemporaryDirectory:
  assumes b: "\<And>tmpdir. appends P (block tmpdir)"
    and q: "\<And>d es. P es \<Longrightarrow> Q (Os (Mkdtemp d) # es @ [Os (Rmtree_tmp d)])"
  shows "appends Q (TemporaryDirectory block)"
  unfolding appends_def
proof
  fix w :: world
  define d where "d = fresh_dir (tmp_live w)"
  define w1 where "w1 = w\<lparr>tmp_live := d # tmp_live w, log := log w @ [Os (Mkdtemp d)]\<rparr>"
  obtain r w2 where bw: "block (tmp_path d) w1 = (r, w2)" by (cases "block (tmp_path d) w1")
  from b [of "tmp_path d"] bw obtain es where es: "log w2 = log w1 @ es" and P: "P es"
    by (auto simp: appends_def dest: spec [of _ w1])
  have "log (snd (TemporaryDirectory block w))
          = log w @ (Os (Mkdtemp d) # es @ [Os (Rmtree_tmp d)])"
    using bw es
    by (simp add: TemporaryDirectory_def Let_def d_def [symmetric] w1_def [symmetric])
       (simp add: w1_def)
  with q [OF P] show "\<exists>es. log (snd (TemporaryDirectory block w)) = log w @ es \<and> Q es"
    by blast
qed

lemma appends_environment_append:
  assumes b: "appends P block"
    and q: "\<And>es. P es \<Longrightarrow> Q (Os (Environ_append env) # es @ [Os Environ_restore])"
  shows "appends Q (environment_append env block)"
  unfolding appends_def
proof
  fix w :: world
  define w1 where "w1 = w\<lparr>log := log w @ [Os (Environ_append env)]\<rparr>"
  obtain r w2 where bw: "block w1 = (r, w2)" by (cases "block w1")
  from b bw obtain es where es: "log w2 = log w1 @ es" and P: "P es"
    by (auto simp: appends_def dest: spec [of _ w1])
  have "log (snd (environment_append env block w))
          = log w @ (Os (Environ_append env) # es @ [Os Environ_restore])"
    using bw es
    by (simp add: environment_append_def Let_def w1_def [symmetric]) (simp add: w1_def)
  with q [OF P] show "\<exists>es. log (snd (environment_append env block w)) = log w @ es \<and> Q es"
    by blast
qed

subsection \<open>Stages\<close>

lemma stages_append: "stages f (es @ es') = stages f es @ stages f es'"
  by (simp add: stages_def map_filter_def)

lemma stages_Nil: "stages f [] = []"
  by (simp add: stages_def map_filter_def)

lemma stages_Cons:
  "stages f (e # es) = (case f e of None \<Rightarrow> stages f es | Some n \<Rightarrow> n # stages f es)"
  by (simp add: stages_def map_filter_def split: option.split)

lemma staged_Nil: "staged lo hi []"
  by (simp add: staged_def stages_Nil)

lemma staged_unstaged: "coarse_stage e = None \<Longrightarrow> staged lo hi [e]"
  by (simp add: staged_def stages_Cons stages_Nil)

lemma staged_at: "coarse_stage e = Some n \<Longrightarrow> lo \<le> n \<Longrightarrow> n \<le> hi \<Longrightarrow> staged lo hi [e]"
  by (simp add: staged_def stages_Cons stages_Nil)

lemma staged_mono: "staged a b es \<Longrightarrow> lo \<le> a \<Longrightarrow> b \<le> hi \<Longrightarrow> staged lo hi es"
  by (fastforce simp: staged_def)

lemma staged_append:
  "staged a b es \<Longrightarrow> staged c d es' \<Longrightarrow> b \<le> c \<Longrightarrow> a \<le> b \<Longrightarrow> c \<le> d
     \<Longrightarrow> staged a d (es @ es')"
  by (fastforce simp: staged_def stages_append sorted_append)

lemma staged_wrap:
  "staged lo hi es \<Longrightarrow> coarse_stage e1 = None \<Longrightarrow> coarse_stage e2 = None
     \<Longrightarrow> staged lo hi (e1 # es @ [e2])"
  by (simp add: staged_def stages_append stages_Cons stages_Nil)

lemma appends_staged_seq:
  assumes "appends (staged a b) p" and "\<And>r. appends (staged c d) (f r)"
    and "a \<le> b" and "b \<le> c" and "c \<le> d"
  shows "appends (staged a d) (and_then p f)"
proof (rule appends_and_then [OF assms(1,2)])
  fix es assume "staged a b es"
  then show "staged a d es"
    using assms(4,5) by (auto intro: staged_mono)
next
  fix es es' assume "staged a b es" and "staged c d es'"
  then show "staged a d (es @ es')"
    using assms(4,3,5) by (rule staged_append)
qed

lemma appends_staged_then:
  assumes "appends (staged a b) p" and "appends (staged c d) q"
    and "a \<le> b" and "b \<le> c" and "c \<le> d"
  shows "appends (staged a d) (then_do p q)"
  unfolding then_do_def using assms by (rule appends_staged_seq)

lemma appends_staged_for_each:
  assumes "\<And>a. appends (staged k k) (body a)"
  shows "appends (staged k k) (for_each as body)"
  by (rule appends_for_each [OF staged_Nil assms])
     (rule staged_append [where b = k and c = k], simp_all)

lemma staged_install_configuration:
  "appends (staged 3 3) (install_configuration x base_profile_name item)"
  unfolding install_configuration_def
  by (rule appends_TemporaryDirectory [where P = "staged 3 3"])
     (auto intro!: appends_call staged_at staged_wrap)

lemma staged_redirect_removed_enter:
  "appends (staged 2 2) (redirect_removed_enter x conan_api)"
  unfolding redirect_removed_enter_def
proof (rule appends_staged_then [where b = 2 and c = 2])
  show "appends (staged 2 2) (if conan_api = None then call x (Api Factory) else succeed ())"
    by (auto intro!: appends_call appends_succeed staged_unstaged staged_Nil)
  show "appends (staged 2 2) (and_then remote_list (\<lambda>rl.
          if REDIRECT_REMOTE \<in> set (map fst rl) then remote_remove REDIRECT_REMOTE
          else succeed ()))"
    by (rule appends_staged_seq [where b = 2 and c = 2])
       (auto intro!: appends_remote_list appends_registry_call appends_succeed staged_Nil
          staged_at simp: remote_remove_def)
qed simp_all

lemma staged_redirect_removed_exit: "appends (staged 4 4) redirect_removed_exit"
  unfolding redirect_removed_exit_def
  by (rule appends_staged_seq [where b = 4 and c = 4])
     (auto intro!: appends_dict_get appends_registry_call staged_Nil staged_at
        simp: remote_add_def)

lemma staged_conan_redirect_removed:
  assumes "appends (staged 3 3) block"
  shows "appends (staged 2 4) (conan_redirect_removed x conan_api block)"
  unfolding conan_redirect_removed_def
proof (rule appends_staged_then [where b = 2 and c = 3])
  show "appends (staged 2 2) (redirect_removed_enter x conan_api)"
    by (rule staged_redirect_removed_enter)
  show "appends (staged 3 4) (then_do block redirect_removed_exit)"
    by (rule appends_staged_then [where b = 3 and c = 4, OF assms staged_redirect_removed_exit])
       simp_all
qed simp_all

lemma staged_get_builder: "appends (staged k k) (get_builder x force_upload username)"
  unfolding get_builder_def
  by (rule appends_staged_seq [where b = k and c = k])
     (auto intro!: appends_dict_get appends_call staged_Nil staged_unstaged)

lemma staged_install_all_configurations:
  "appends (staged 2 4) (install_all_configurations x)"
  unfolding install_all_configurations_def Let_def
proof (rule appends_staged_then [where b = 2 and c = 2, OF staged_get_builder])
  show "appends (staged 2 4)
     (then_do (call x (Api Add_common_builds))
        (conan_redirect_removed x (Some ())
           (for_each (builder_items x)
              (install_configuration x
                 (if sys_platform x = ''linux'' then Some ''devtoolset-7'' else None)))))"
    by (rule appends_staged_then [where b = 2 and c = 2])
       (auto intro!: appends_call staged_unstaged staged_conan_redirect_removed
          appends_staged_for_each staged_install_configuration)
qed simp_all

lemma staged_call_at:
  "coarse_stage e = Some k \<Longrightarrow> appends (staged k k) (call x e)"
  by (rule appends_call) (rule staged_at [where n = k], simp_all)

lemma staged_call_unstaged:
  "coarse_stage e = None \<Longrightarrow> appends (staged k k) (call x e)"
  by (rule appends_call) (rule staged_unstaged)

lemma staged_succeed: "appends (staged k k) (succeed a)"
  by (rule appends_succeed) (rule staged_Nil)

lemma staged_same_then:
  "appends (staged k k) p \<Longrightarrow> appends (staged k k) q \<Longrightarrow> appends (staged k k) (then_do p q)"
  by (rule appends_staged_then [where b = k and c = k]) simp_all

lemma staged_same_seq:
  "appends (staged k k) p \<Longrightarrow> (\<And>r. appends (staged k k) (f r))
     \<Longrightarrow> appends (staged k k) (and_then p f)"
  by (rule appends_staged_seq [where b = k and c = k]) simp_all

lemma staged_promote_dependency:
  "appends (staged 5 5) (promote_dependency x remote_refs conanfile)"
proof (cases "cf_alias conanfile \<noteq> None")
  case True
  then show ?thesis
    by (simp add: promote_dependency_def staged_succeed)
next
  case False
  have u: "appends (staged 5 5)
     (if repr_conanfile conanfile \<in> set (map fst remote_refs)
      then call x (Api (Remote_update_ref (repr_conanfile conanfile) REDIRECT_REMOTE))
      else succeed ())"
    by (simp add: staged_call_at staged_succeed)
  from False show ?thesis
    unfolding promote_dependency_def Let_def
    by (simp only: if_False) (intro staged_same_then staged_call_at u; simp)
qed

lemma staged_dependencies: "appends (staged 5 5) (dependencies x)"
  unfolding dependencies_def Let_def
  by (intro staged_same_then staged_call_at staged_succeed) simp

lemma staged_stable_non_local_dependencies:
  "appends (staged 5 5) (stable_non_local_dependencies x)"
  unfolding stable_non_local_dependencies_def
  by (intro staged_same_seq staged_dependencies staged_succeed)

lemma staged_upload_dependencies_internal:
  "appends (staged 5 5) (upload_dependencies_internal x conan_api)"
  unfolding upload_dependencies_internal_def
proof (intro staged_same_then staged_same_seq appends_staged_for_each
    staged_promote_dependency staged_stable_non_local_dependencies)
  show "appends (staged 5 5) (if conan_api = None then call x (Api Factory) else succeed ())"
    by (simp add: staged_call_unstaged staged_succeed)
  show "appends (staged 5 5) (remote_list_ref x)"
    by (rule appends_remote_list_ref) (rule staged_Nil)
qed

lemma staged_emit_unstaged: "coarse_stage e = None \<Longrightarrow> appends (staged k k) (emit e)"
  by (rule appends_emit) (rule staged_unstaged)

lemma staged_raise: "appends (staged k k) (raise e)"
  by (rule appends_raise) (rule staged_Nil)

lemma staged_check_long_paths: "appends (staged k k) (check_long_paths x)"
proof (cases "sys_platform x = ''win32''")
  case False
  then show ?thesis
    by (simp add: check_long_paths_def staged_succeed)
next
  case True
  show ?thesis
  proof (cases "winreg_open x FILESYSTEM_KEY")
    case None
    with True show ?thesis
      by (simp add: check_long_paths_def staged_raise)
  next
    case (Some key)
    have q: "appends (staged k k)
       (case key ''LongPathsEnabled'' of
          Inr v \<Rightarrow> succeed (v \<noteq> 0)
        | Inl e \<Rightarrow> if e = FileNotFoundError then succeed False else raise e)"
      by (simp add: staged_succeed staged_raise split: sum.split)
    have w: "\<And>long_paths_enabled. appends (staged k k)
       (if \<not> long_paths_enabled then
          then_do
            (emit (Out Warn ''It is strongly recommended to enable long paths in Windows''))
            (emit (Out Warn ''See the LongPathsEnabled.reg file in the tasks directory''))
        else succeed ())"
      by (simp add: staged_succeed staged_same_then staged_emit_unstaged)
    from True Some have "check_long_paths x =
       and_then
         (case key ''LongPathsEnabled'' of
            Inr v \<Rightarrow> succeed (v \<noteq> 0)
          | Inl e \<Rightarrow> if e = FileNotFoundError then succeed False else raise e)
         (\<lambda>long_paths_enabled.
            if \<not> long_paths_enabled then
              then_do
                (emit (Out Warn
                   ''It is strongly recommended to enable long paths in Windows''))
                (emit (Out Warn
                   ''See the LongPathsEnabled.reg file in the tasks directory''))
            else succeed ())"
      by (simp add: check_long_paths_def)
    then show ?thesis
      by (simp only:) (rule staged_same_seq [OF q w])
  qed
qed

lemma staged_remove_remote_refs: "appends (staged 1 1) (remove_remote_refs x)"
  unfolding remove_remote_refs_def
proof (intro staged_same_seq appends_staged_for_each staged_call_at)
  show "appends (staged 1 1) (remote_list_ref x)"
    by (rule appends_remote_list_ref) (rule staged_Nil)
qed simp

lemma staged_temporary_user_home_api:
  assumes "appends (staged 2 5) block"
  shows "appends (staged 0 5) (temporary_user_home_api x block)"
  unfolding temporary_user_home_api_def Let_def
proof (rule appends_TemporaryDirectory [where P = "staged 0 5"])
  fix tmpdir
  have inner: "appends (staged 1 5)
      (then_do (check_long_paths x) (then_do (remove_remote_refs x) block))"
    by (rule appends_staged_then [where b = 1 and c = 1, OF staged_check_long_paths])
       (rule appends_staged_then [where b = 1 and c = 2, OF staged_remove_remote_refs assms],
        simp_all)
  have env: "appends (staged 1 5)
      (environment_append
          [(''CONAN_USER_HOME'', tmpdir), (''CONAN_USER_HOME_SHORT'', ''None'')]
          (then_do (check_long_paths x) (then_do (remove_remote_refs x) block)))"
    by (rule appends_environment_append [OF inner]) (simp add: staged_wrap)
  have fac: "appends (staged 1 5) (then_do (call x (Api Factory))
      (environment_append
          [(''CONAN_USER_HOME'', tmpdir), (''CONAN_USER_HOME_SHORT'', ''None'')]
          (then_do (check_long_paths x) (then_do (remove_remote_refs x) block))))"
    by (rule appends_staged_then [where b = 1 and c = 1, OF _ env])
       (auto intro!: appends_call staged_unstaged)
  have chm: "appends (staged 1 5)
      (then_do (call x (Os (Chmod (os_path_join x tmpdir ''.conan'') 511)))
      (then_do (call x (Api Factory))
      (environment_append
          [(''CONAN_USER_HOME'', tmpdir), (''CONAN_USER_HOME_SHORT'', ''None'')]
          (then_do (check_long_paths x) (then_do (remove_remote_refs x) block)))))"
    by (rule appends_staged_then [where b = 1 and c = 1, OF _ fac])
       (auto intro!: appends_call staged_unstaged)
  show "appends (staged 0 5)
      (then_do (call x (Os (Copytree (user_home x) (os_path_join x tmpdir ''.conan'')
                               [''data'', ''.conan.db''])))
      (then_do (call x (Os (Chmod (os_path_join x tmpdir ''.conan'') 511)))
      (then_do (call x (Api Factory))
      (environment_append
          [(''CONAN_USER_HOME'', tmpdir), (''CONAN_USER_HOME_SHORT'', ''None'')]
          (then_do (check_long_paths x) (then_do (remove_remote_refs x) block))))))"
    by (rule appends_staged_then [where b = 0 and c = 1, OF _ chm])
       (auto intro!: appends_call staged_at)
next
  fix d es
  assume "staged 0 5 es"
  then show "staged 0 5 (Os (Mkdtemp d) # es @ [Os (Rmtree_tmp d)])"
    by (simp add: staged_wrap)
qed

lemma staged_copy_dependencies: "appends (staged 0 5) (copy_dependencies x)"
  unfolding copy_dependencies_def
proof (rule staged_temporary_user_home_api)
  show "appends (staged 2 5)
     (then_do (install_all_configurations x) (upload_dependencies_internal x (Some ())))"
    by (rule appends_staged_then [where b = 4 and c = 5,
          OF staged_install_all_configurations staged_upload_dependencies_internal])
       simp_all
qed


text \<open>
  In every run of \<open>copy_dependencies\<close>, also one that raises, no phase starts before
  the one before it has ended.
\<close>

lemma copy_dependencies_coarse_order:
  "\<exists>es. log (snd (copy_dependencies x w)) = log w @ es \<and> in_stage_order coarse_stage es"
  using staged_copy_dependencies [of x]
  by (auto simp: appends_def staged_def in_stage_order_def dest: spec [of _ w])

section \<open>The pipeline, step by step: properties\<close>

lemma check_long_paths_any_world:
  "check_long_paths x w =
     (fst (check_long_paths x \<lparr>registry = [], tmp_live = [], log = []\<rparr>),
      w\<lparr>log := log w @ long_path_warnings x\<rparr>)"
  by (simp add: long_path_warnings_def check_long_paths_def then_do_def and_then_def
      emit_def succeed_def raise_def split: option.split sum.split)

lemma check_long_paths_checked:
  "long_paths_checked x \<Longrightarrow>
   check_long_paths x w = (Inr (), w\<lparr>log := log w @ long_path_warnings x\<rparr>)"
  using check_long_paths_any_world [of x w] by (simp add: long_paths_checked_def)

lemma for_each_log_tmp:
  assumes "\<And>a w. body a w = (Inr (), w\<lparr>log := log w @ f (tmp_live w) a\<rparr>)"
  shows "for_each as body w = (Inr (), w\<lparr>log := log w @ concat (map (f (tmp_live w)) as)\<rparr>)"
  by (induction as arbitrary: w) (simp_all add: succeed_def then_do_def and_then_def assms)

lemma remove_remote_refs_quiet:
  assumes "calls_return x"
  shows "remove_remote_refs x w = (Inr (), w\<lparr>log := log w @ strip_events x (log w)\<rparr>)"
proof -
  have b: "\<And>ref w. call x (Api (Remote_remove_ref ref)) w
             = (Inr (), w\<lparr>log := log w @ [Api (Remote_remove_ref ref)]\<rparr>)"
    by (rule call_quiet [OF assms])
  have "concat (map (\<lambda>ref. [Api (Remote_remove_ref ref)]) (map fst (ref_table x (log w))))
          = strip_events x (log w)"
    by (simp add: strip_events_def comp_def)
  then show ?thesis
    by (simp add: remove_remote_refs_def and_then_def remote_list_ref_def
        for_each_log [of "\<lambda>ref. call x (Api (Remote_remove_ref ref))", OF b])
qed

lemma get_builder_quiet:
  assumes "calls_return x"
  shows "get_builder x force_upload username w =
     (Inr (), w\<lparr>log := log w @
        [Api (Multi_packager username (\<not> force_upload)
                (DL_ARTIFACTORY @ ''/api/conan/conan-local'', True, ''conan-local''))]\<rparr>)"
  by (simp add: get_builder_def dict_get_def remotes_def UPLOAD_REMOTE_def and_then_def
      succeed_def call_quiet [OF assms])

lemma registry_remove_filter:
  "name \<in> set (map fst rs) \<Longrightarrow>
   registry_remove name rs = Inr (filter (\<lambda>r. fst r \<noteq> name) rs)"
  by (simp add: registry_remove_def case_prod_unfold)

lemma filter_absent: "name \<notin> set (map fst rs) \<Longrightarrow> filter (\<lambda>r. fst r \<noteq> name) rs = rs"
  by (induction rs) auto

lemma redirect_removed_enter_run:
  "redirect_removed_enter x (Some ()) w =
     (Inr (),
      w\<lparr>registry := filter (\<lambda>r. fst r \<noteq> ''conan-redirect'') (registry w),
        log := log w @ (if ''conan-redirect'' \<in> set (map fst (registry w))
                        then [Api (Remote_remove ''conan-redirect'')] else [])\<rparr>)"
proof (cases "''conan-redirect'' \<in> set (map fst (registry w))")
  case True
  then show ?thesis
    by (simp add: redirect_removed_enter_def REDIRECT_REMOTE_def and_then_def remote_list_def
        remote_remove_def registry_call_def registry_remove_filter)
next
  case False
  then show ?thesis
    by (simp add: redirect_removed_enter_def REDIRECT_REMOTE_def and_then_def remote_list_def
        succeed_def filter_absent)
qed

lemma install_configuration_quiet:
  assumes "calls_return x"
  shows "install_configuration x
           (if sys_platform x = ''linux'' then Some ''devtoolset-7'' else None) item w =
     (Inr (), w\<lparr>log := log w @ install_events x (fresh_dir (tmp_live w)) item\<rparr>)"
  using fresh_dir_new [of "tmp_live w"]
  by (simp add: install_configuration_def TemporaryDirectory_def Let_def
      call_quiet [OF assms] install_events_def)

lemma redirect_removed_exit_quiet:
  assumes "''conan-redirect'' \<notin> set (map fst (registry w))"
    and "redirect_url \<notin> set (map snd (registry w))"
  shows "redirect_removed_exit w =
     (Inr (),
      w\<lparr>registry := registry w @ [(''conan-redirect'', redirect_url)],
        log := log w @ [Api (Remote_add ''conan-redirect'' redirect_url None False)]\<rparr>)"
  using assms
  by (simp add: redirect_removed_exit_run remote_add_def registry_call_def registry_add_def
      REDIRECT_REMOTE_def redirect_url_def)


lemma upload_dependencies_internal_given:
  assumes "calls_return x"
  shows "upload_dependencies_internal x (Some ()) w =
     (Inr (), w\<lparr>log := log w @ promotion_events x (log w)\<rparr>)"
  by (simp add: upload_dependencies_internal_quiet [OF assms] promotion_events_def
      conj_commute)

lemma install_all_configurations_quiet:
  assumes c: "calls_return x"
    and u: "\<forall>r \<in> set (registry w). snd r = redirect_url \<longrightarrow> fst r = ''conan-redirect''"
  shows "install_all_configurations x w =
     (Inr (),
      w\<lparr>registry := filter (\<lambda>r. fst r \<noteq> ''conan-redirect'') (registry w)
                        @ [(''conan-redirect'', redirect_url)],
        log := log w @ install_all_events x (registry w) (fresh_dir (tmp_live w))\<rparr>)"
proof -
  let ?prof = "if sys_platform x = ''linux'' then Some ''devtoolset-7'' else None"
  define w1 where "w1 = w\<lparr>log := log w @
        [Api (Multi_packager (os_user x) True
                (DL_ARTIFACTORY @ ''/api/conan/conan-local'', True, ''conan-local''))]\<rparr>"
  define w2 where "w2 = w1\<lparr>log := log w1 @ [Api Add_common_builds]\<rparr>"
  define w3 where "w3 = w2\<lparr>registry := filter (\<lambda>r. fst r \<noteq> ''conan-redirect'') (registry w2),
        log := log w2 @ (if ''conan-redirect'' \<in> set (map fst (registry w2))
                        then [Api (Remote_remove ''conan-redirect'')] else [])\<rparr>"
  define w4 where "w4 = w3\<lparr>log := log w3 @
        concat (map (install_events x (fresh_dir (tmp_live w3))) (builder_items x))\<rparr>"
  define w5 where "w5 = w4\<lparr>registry := registry w4 @ [(''conan-redirect'', redirect_url)],
        log := log w4 @ [Api (Remote_add ''conan-redirect'' redirect_url None False)]\<rparr>"
  have 1: "get_builder x False (os_user x) w = (Inr (), w1)"
    by (simp add: get_builder_quiet [OF c] w1_def)
  have 2: "call x (Api Add_common_builds) w1 = (Inr (), w2)"
    by (simp add: call_quiet [OF c] w2_def)
  have 3: "redirect_removed_enter x (Some ()) w2 = (Inr (), w3)"
    by (simp add: redirect_removed_enter_run w3_def)
  have 4: "for_each (builder_items x) (install_configuration x ?prof) w3 = (Inr (), w4)"
    unfolding w4_def
    by (rule for_each_log_tmp [of "install_configuration x ?prof"])
       (rule install_configuration_quiet [OF c])
  have r4: "registry w4 = filter (\<lambda>r. fst r \<noteq> ''conan-redirect'') (registry w)"
    by (simp add: w4_def w3_def w2_def w1_def)
  have n: "''conan-redirect'' \<notin> set (map fst (registry w4))"
    unfolding r4 by auto
  have v: "redirect_url \<notin> set (map snd (registry w4))"
    unfolding r4 using u by auto
  have 5: "redirect_removed_exit w4 = (Inr (), w5)"
    by (simp add: redirect_removed_exit_quiet [OF n v] w5_def)
  have "install_all_configurations x w = (Inr (), w5)"
    unfolding install_all_configurations_def conan_redirect_removed_def Let_def
      then_do_def and_then_def
    by (simp only: 1 2 3 4 5 prod.case sum.case)
  then show ?thesis
    by (simp add: w5_def w4_def w3_def w2_def w1_def install_all_events_def)
qed

lemma copy_dependencies_quiet:
  assumes c: "calls_return x" and k: "long_paths_checked x"
    and u: "\<forall>r \<in> set (registry w). snd r = redirect_url \<longrightarrow> fst r = ''conan-redirect''"
  shows "copy_dependencies x w =
     (Inr (),
      w\<lparr>registry := filter (\<lambda>r. fst r \<noteq> ''conan-redirect'') (registry w)
                        @ [(''conan-redirect'', redirect_url)],
        log := log w @ pipeline_log x w\<rparr>)"
proof -
  define d where "d = fresh_dir (tmp_live w)"
  define w1 where "w1 = w\<lparr>tmp_live := d # tmp_live w, log := log w @ isolate_events x d\<rparr>"
  define w2 where "w2 = w1\<lparr>log := log w1 @ strip_events x (log w1)\<rparr>"
  define w3 where "w3 = w2\<lparr>registry := filter (\<lambda>r. fst r \<noteq> ''conan-redirect'') (registry w2)
                        @ [(''conan-redirect'', redirect_url)],
        log := log w2 @ install_all_events x (registry w2) (fresh_dir (tmp_live w2))\<rparr>"
  define w4 where "w4 = w3\<lparr>log := log w3 @ promotion_events x (log w3)\<rparr>"
  have u2: "\<forall>r \<in> set (registry w2). snd r = redirect_url \<longrightarrow> fst r = ''conan-redirect''"
    using u by (simp add: w2_def w1_def)
  have 2: "remove_remote_refs x w1 = (Inr (), w2)"
    by (simp add: remove_remote_refs_quiet [OF c] w2_def)
  have 3: "install_all_configurations x w2 = (Inr (), w3)"
    by (simp add: install_all_configurations_quiet [OF c u2] w3_def)
  have 4: "upload_dependencies_internal x (Some ()) w3 = (Inr (), w4)"
    by (simp add: upload_dependencies_internal_given [OF c] w4_def)
  have block: "then_do (remove_remote_refs x)
         (then_do (install_all_configurations x) (upload_dependencies_internal x (Some ()))) w1
         = (Inr (), w4)"
    unfolding then_do_def and_then_def by (simp only: 2 3 4 prod.case sum.case)
  have nd: "d \<notin> set (tmp_live w)"
    unfolding d_def by (rule fresh_dir_new)
  have "copy_dependencies x w =
     (Inr (), w4\<lparr>log := log w4 @ [Os Environ_restore, Os (Rmtree_tmp d)],
                 tmp_live := tmp_live w\<rparr>)"
    using nd block
    by (simp add: copy_dependencies_def temporary_user_home_api_def TemporaryDirectory_def
        environment_append_def Let_def d_def [symmetric] then_do_def and_then_def
        call_quiet [OF c] check_long_paths_checked [OF k] w1_def isolate_events_def
        w4_def w3_def w2_def)
  then show ?thesis
    by (simp add: w4_def w3_def w2_def w1_def pipeline_log_def Let_def d_def)
qed


text \<open>
  C6, as amended. When the calls return, the long-paths check passes and no remote of
  another name has the URL of the redirect remote, \<open>copy_dependencies\<close> returns, and
  what it has done is exactly \<open>pipeline_log\<close>, in this order: copy the user home of
  the package manager into the temporary home; remove the remote refs; remove the
  redirect remote, if it is in the list; install for all configurations; add the
  redirect remote again; and then promote the dependencies one after the other, each
  one copied and uploaded to \<open>conan-ext\<close> before its alias is exported and uploaded to
  the redirect remote. The redirect remote is added again before the first upload,
  not at the end: the aliases are uploaded to it.
\<close>

theorem copy_dependencies_order:
  "calls_return x \<and> long_paths_checked x \<and>
   (\<forall>r \<in> set (registry w). snd r = redirect_url \<longrightarrow> fst r = ''conan-redirect'')
     \<longrightarrow> copy_dependencies x w =
           (Inr (),
            w\<lparr>registry := filter (\<lambda>r. fst r \<noteq> ''conan-redirect'') (registry w)
                              @ [(''conan-redirect'', redirect_url)],
              log := log w @ pipeline_log x w\<rparr>)"
  using copy_dependencies_quiet [of x w] by blast

theorem copy_dependencies_order_witness:
  "copy_dependencies with_remote_ref start =
     (Inr (),
      start\<lparr>registry := tl remotes @ [(''conan-redirect'', redirect_url)],
        log :=
          [Os (Mkdtemp 1),
           Os (Copytree ''/home/kam/.conan'' ''/tmp/tmp1/.conan'' [''data'', ''.conan.db'']),
           Os (Chmod ''/tmp/tmp1/.conan'' 511),
           Api Factory,
           Os (Environ_append
                 [(''CONAN_USER_HOME'', ''/tmp/tmp1''), (''CONAN_USER_HOME_SHORT'', ''None'')]),
           Api (Remote_remove_ref ''zlib/1.2.11@conan/stable''),
           Api (Multi_packager ''kam'' True
                  (DL_ARTIFACTORY @ ''/api/conan/conan-local'', True, ''conan-local'')),
           Api Add_common_builds,
           Api (Remote_remove ''conan-redirect''),
           Os (Mkdtemp 2),
           Api (Install ''.''
                  \<lparr>arg_settings = [''arch=x86_64''], arg_options = [], arg_env = [],
                   arg_build = [''missing''], arg_profile_name = Some ''devtoolset-7'',
                   arg_install_folder = ''/tmp/tmp2''\<rparr>
                  False),
           Os (Rmtree_tmp 2),
           Api (Remote_add ''conan-redirect'' redirect_url None False),
           Api (Graph_info ''.'' ''default'' [''never'']),
           Api (Copy ''zlib/1.2.11@conan/stable'' ''datalogics/stable'' True True),
           Api (Upload ''zlib/1.2.11@datalogics/stable'' ''conan-ext'' True True True),
           Api (Remote_update_ref ''zlib/1.2.11@conan/stable'' ''conan-redirect''),
           Api (Remove ''zlib/1.2.11@conan/stable'' True),
           Api (Export_alias ''zlib/1.2.11@conan/stable'' ''zlib/1.2.11@datalogics/stable''),
           Api (Upload ''zlib/1.2.11@conan/stable'' ''conan-redirect'' True False False),
           Os Environ_restore,
           Os (Rmtree_tmp 1)]\<rparr>)"
proof -
  have c: "calls_return with_remote_ref"
    by (simp add: calls_return_def with_remote_ref_def one_dependency_def quiet_def)
  have k: "long_paths_checked with_remote_ref"
    by (simp add: long_paths_checked_def check_long_paths_def with_remote_ref_def
        one_dependency_def quiet_def succeed_def)
  have u: "\<forall>r \<in> set (registry start). snd r = redirect_url \<longrightarrow> fst r = ''conan-redirect''"
    by (simp add: start_def remotes_def redirect_url_def DL_ARTIFACTORY_def)
  have g: "filter (\<lambda>r. fst r \<noteq> ''conan-redirect'') (registry start) = tl remotes"
    by (simp add: start_def remotes_def)
  have l: "log start = []"
    by (simp add: start_def)
  have p: "pipeline_log with_remote_ref start =
          [Os (Mkdtemp 1),
           Os (Copytree ''/home/kam/.conan'' ''/tmp/tmp1/.conan'' [''data'', ''.conan.db'']),
           Os (Chmod ''/tmp/tmp1/.conan'' 511),
           Api Factory,
           Os (Environ_append
                 [(''CONAN_USER_HOME'', ''/tmp/tmp1''), (''CONAN_USER_HOME_SHORT'', ''None'')]),
           Api (Remote_remove_ref ''zlib/1.2.11@conan/stable''),
           Api (Multi_packager ''kam'' True
                  (DL_ARTIFACTORY @ ''/api/conan/conan-local'', True, ''conan-local'')),
           Api Add_common_builds,
           Api (Remote_remove ''conan-redirect''),
           Os (Mkdtemp 2),
           Api (Install ''.''
                  \<lparr>arg_settings = [''arch=x86_64''], arg_options = [], arg_env = [],
                   arg_build = [''missing''], arg_profile_name = Some ''devtoolset-7'',
                   arg_install_folder = ''/tmp/tmp2''\<rparr>
                  False),
           Os (Rmtree_tmp 2),
           Api (Remote_add ''conan-redirect'' redirect_url None False),
           Api (Graph_info ''.'' ''default'' [''never'']),
           Api (Copy ''zlib/1.2.11@conan/stable'' ''datalogics/stable'' True True),
           Api (Upload ''zlib/1.2.11@datalogics/stable'' ''conan-ext'' True True True),
           Api (Remote_update_ref ''zlib/1.2.11@conan/stable'' ''conan-redirect''),
           Api (Remove ''zlib/1.2.11@conan/stable'' True),
           Api (Export_alias ''zlib/1.2.11@conan/stable'' ''zlib/1.2.11@datalogics/stable''),
           Api (Upload ''zlib/1.2.11@conan/stable'' ''conan-redirect'' True False False),
           Os Environ_restore,
           Os (Rmtree_tmp 1)]"
    by code_simp
  from copy_dependencies_order [of with_remote_ref start] c k u show ?thesis
    by (simp only: g l p append_Nil simp_thms)
qed

text \<open>
  C6, as first stated, puts the second \<open>remote_add\<close> of the redirect remote after the
  uploads and the aliases. In the run with one dependency and one configuration the
  stages of the claim come as 0, 1, 2, 5, 3, 3, 4, 4.
\<close>

theorem copy_dependencies_order_counterexample:
  "fst (copy_dependencies with_remote_ref start) = Inr () \<and>
   stages claimed_stage (log (snd (copy_dependencies with_remote_ref start)))
     = [0, 1, 2, 5, 3, 3, 4, 4] \<and>
   \<not> in_stage_order claimed_stage (log (snd (copy_dependencies with_remote_ref start)))"
proof -
  have a: "fst (copy_dependencies with_remote_ref start) = Inr ()"
    by code_simp
  have b: "stages claimed_stage (log (snd (copy_dependencies with_remote_ref start)))
     = [0, 1, 2, 5, 3, 3, 4, 4]"
    by code_simp
  from a b show ?thesis
    by (simp add: in_stage_order_def)
qed


section \<open>Remote reconciliation: properties\<close>

lemmas setup_remotes_run = setup_remotes_def get_remotes_def remotes_def DL_ARTIFACTORY_def
  succeed_def and_then_def then_do_def emit_def call_def
  registry_call_def remote_list_def remote_rename_def remote_add_def
  registry_rename_def registry_add_def list_insert_def quiet_def

text \<open>
  From the empty list and from the canonical list \<open>setup_remotes\<close> gives the canonical
  list; a remote that has a canonical URL under another name is renamed, and the
  remotes with other URLs follow the canonical ones.
\<close>

lemma setup_remotes_from_nothing:
  "\<exists>L. setup_remotes quiet no_remotes
         = (Inr (), \<lparr>registry = remotes, tmp_live = [], log = L\<rparr>)"
  by (simp add: setup_remotes_run no_remotes_def del: set_filter)

lemma setup_remotes_from_canonical:
  "\<exists>L. setup_remotes quiet start
         = (Inr (), \<lparr>registry = remotes, tmp_live = [], log = L\<rparr>)"
  by (simp add: setup_remotes_run start_def del: set_filter)

lemma setup_remotes_renames:
  "\<exists>L. setup_remotes quiet other_name
         = (Inr (), \<lparr>registry = remotes @ [(''mine'', ''https://example.org/conan'')],
                     tmp_live = [], log = L\<rparr>) \<and>
        Api (Remote_rename ''bintray'' ''conan-center'') \<in> set L"
  by (simp add: setup_remotes_run other_name_def del: set_filter)

text \<open>A rename to a name that is taken replaces the remote that had the name.\<close>

lemma setup_remotes_takes_over:
  "\<exists>L. setup_remotes quiet taken_name
         = (Inr (), \<lparr>registry = remotes, tmp_live = [], log = L\<rparr>) \<and>
        Api (Remote_rename ''bintray'' ''conan-center'') \<in> set L"
  by (simp add: setup_remotes_run taken_name_def del: set_filter)

lemma setup_remotes_misnamed_once:
  "\<exists>L. setup_remotes quiet misnamed
         = (Inr (), \<lparr>registry = tl remotes, tmp_live = [], log = L\<rparr>)"
  by (simp add: setup_remotes_run misnamed_def del: set_filter)

lemma setup_remotes_misnamed_again:
  "registry (snd (setup_remotes quiet \<lparr>registry = tl remotes, tmp_live = t, log = L\<rparr>))
     = remotes"
  by (simp add: setup_remotes_run del: set_filter)

text \<open>
  C2. The claim is that after \<open>setup_remotes\<close> every canonical remote is in the list.
  The table \<open>urls\<close> is read once, before the loop. From the list whose one remote is
  named \<open>conan-redirect\<close> with the URL of \<open>conan-ext\<close>, the first round of the loop
  gives \<open>conan-redirect\<close> its canonical URL; the second round still finds the URL of
  \<open>conan-ext\<close> under the name \<open>conan-redirect\<close> in \<open>urls\<close> and renames that remote,
  by now the canonical one, to \<open>conan-ext\<close>. The task returns, and the list has no
  \<open>conan-redirect\<close>.
\<close>

theorem setup_remotes_loses_redirect:
  "fst (setup_remotes quiet misnamed) = Inr () \<and>
   registry (snd (setup_remotes quiet misnamed)) = tl remotes \<and>
   REDIRECT_REMOTE \<notin> set (map fst (registry (snd (setup_remotes quiet misnamed))))"
proof -
  from setup_remotes_misnamed_once obtain L where
    "setup_remotes quiet misnamed = (Inr (), \<lparr>registry = tl remotes, tmp_live = [], log = L\<rparr>)"
    by blast
  then show ?thesis
    by (simp add: remotes_def REDIRECT_REMOTE_def)
qed

text \<open>
  C3. The claim is that running \<open>setup_remotes\<close> twice gives the list that running it
  once gives. From the same list the first run ends without \<open>conan-redirect\<close> and
  the second run adds it.
\<close>

theorem setup_remotes_not_idempotent:
  "registry (snd (setup_remotes quiet (snd (setup_remotes quiet misnamed)))) = remotes \<and>
   registry (snd (setup_remotes quiet (snd (setup_remotes quiet misnamed))))
     \<noteq> registry (snd (setup_remotes quiet misnamed))"
proof -
  from setup_remotes_misnamed_once obtain L where
    once: "setup_remotes quiet misnamed
             = (Inr (), \<lparr>registry = tl remotes, tmp_live = [], log = L\<rparr>)"
    by blast
  have twice: "registry (snd (setup_remotes quiet (snd (setup_remotes quiet misnamed))))
                 = remotes"
    by (simp only: once snd_conv setup_remotes_misnamed_again)
  have "remotes \<noteq> tl remotes"
    by (simp add: remotes_def)
  with once twice show ?thesis
    by simp
qed

end
